theory Spec2Isabelle
  imports Main "HOL-Library.Word"
begin

unbundle bit_operations_syntax

section \<open>Python values used by the certificate generator\<close>

text \<open>
  A Python \<open>str\<close> is a sequence of Unicode code points; a code point is a natural number.
  Literals are written \<open>py ''...''\<close>. Bytes (the result of \<open>str.encode()\<close>) are 8-bit words.
\<close>

type_synonym pystr = "nat list"
type_synonym byte = "8 word"
type_synonym u32 = "32 word"

definition py :: "string \<Rightarrow> pystr" where
  "py s = map of_char s"

datatype py_error =
    ValueError pystr
  | UnicodeEncodeError
  | IntegrityError

text \<open>
  The Python runtime the functions run in: the clock read by \<open>datetime.now().year\<close>, and
  the Unicode upper-case mapping that \<open>str.upper()\<close> applies to a code point outside ASCII
  (a table of the interpreter, which may map one code point to several).
\<close>

record runtime =
  now_year :: int
  upper_nonascii :: "nat \<Rightarrow> nat list"

subsection \<open>Formatting integers\<close>

fun digits :: "nat \<Rightarrow> pystr" where
  "digits n = (if n < 10 then [48 + n] else digits (n div 10) @ [48 + n mod 10])"

declare digits.simps [simp del]

text \<open>\<open>f"{n}"\<close> for an int.\<close>

definition str_int :: "int \<Rightarrow> pystr" where
  "str_int n = (if n < 0 then 45 # digits (nat (- n)) else digits (nat n))"

definition zfill :: "nat \<Rightarrow> pystr \<Rightarrow> pystr" where
  "zfill w ds = replicate (w - length ds) 48 @ ds"

text \<open>\<open>f"{n:04d}"\<close>: zero padding to width 4; the sign counts in the width.\<close>

definition format_04d :: "int \<Rightarrow> pystr" where
  "format_04d n = (if n < 0 then 45 # zfill 3 (digits (nat (- n))) else zfill 4 (digits (nat n)))"

subsection \<open>\<open>str.upper\<close>, \<open>str.split\<close>, \<open>str.encode\<close>\<close>

definition upper_cp :: "runtime \<Rightarrow> nat \<Rightarrow> nat list" where
  "upper_cp rt c =
     (if 97 \<le> c \<and> c \<le> 122 then [c - 32]
      else if c < 128 then [c]
      else upper_nonascii rt c)"

definition upper :: "runtime \<Rightarrow> pystr \<Rightarrow> pystr" where
  "upper rt s = concat (map (upper_cp rt) s)"

text \<open>\<open>s.split(sep)\<close> for a one-character separator: never empty.\<close>

fun split :: "nat \<Rightarrow> pystr \<Rightarrow> pystr list" where
  "split sep [] = [[]]"
| "split sep (c # s) =
     (if c = sep then [] # split sep s
      else (case split sep s of p # ps \<Rightarrow> (c # p) # ps | [] \<Rightarrow> [[c]]))"

text \<open>UTF-8; a surrogate code point cannot be encoded and raises.\<close>

definition utf8_cp :: "nat \<Rightarrow> py_error + byte list" where
  "utf8_cp c =
     (if c < 0x80 then Inr [of_nat c]
      else if c < 0x800 then Inr [of_nat (0xC0 + c div 64), of_nat (0x80 + c mod 64)]
      else if 0xD800 \<le> c \<and> c \<le> 0xDFFF then Inl UnicodeEncodeError
      else if c < 0x10000 then
        Inr [of_nat (0xE0 + c div 4096), of_nat (0x80 + c div 64 mod 64), of_nat (0x80 + c mod 64)]
      else
        Inr [of_nat (0xF0 + c div 262144), of_nat (0x80 + c div 4096 mod 64),
             of_nat (0x80 + c div 64 mod 64), of_nat (0x80 + c mod 64)])"

fun encode :: "pystr \<Rightarrow> py_error + byte list" where
  "encode [] = Inr []"
| "encode (c # s) =
     (case utf8_cp c of
        Inl e \<Rightarrow> Inl e
      | Inr bs \<Rightarrow> (case encode s of Inl e \<Rightarrow> Inl e | Inr r \<Rightarrow> Inr (bs @ r)))"

subsection \<open>The regular expression of \<open>validate_serial_number\<close>\<close>

text \<open>
  \<open>\d\<close> in a \<open>str\<close> pattern matches every Unicode decimal digit (category Nd), not only
  \<open>0\<close> to \<open>9\<close>. The digits come in runs of ten; the list holds the zero of each run
  (Unicode 14.0, the table of CPython 3.11).
\<close>

definition decimal_zeros :: "nat list" where
  "decimal_zeros =
    [48, 1632, 1776, 1984, 2406, 2534, 2662, 2790, 2918, 3046, 3174, 3302, 3430, 3558, 3664,
     3792, 3872, 4160, 4240, 6112, 6160, 6470, 6608, 6784, 6800, 6992, 7088, 7232, 7248, 42528,
     43216, 43264, 43472, 43504, 43600, 44016, 65296, 66720, 68912, 69734, 69872, 69942, 70096,
     70384, 70736, 70864, 71248, 71360, 71472, 71904, 72016, 72784, 73040, 73120, 92768, 92864,
     93008, 120782, 120792, 120802, 120812, 120822, 123200, 123632, 125264, 130032]"

definition re_digit :: "nat \<Rightarrow> bool" where
  "re_digit c = list_ex (\<lambda>z. z \<le> c \<and> c < z + 10) decimal_zeros"

definition re_A_Z :: "nat \<Rightarrow> bool" where
  "re_A_Z c = (65 \<le> c \<and> c \<le> 90)"

definition re_A_F0_9 :: "nat \<Rightarrow> bool" where
  "re_A_F0_9 c = ((65 \<le> c \<and> c \<le> 70) \<or> (48 \<le> c \<and> c \<le> 57))"

definition re_hyphen :: "nat \<Rightarrow> bool" where
  "re_hyphen c = (c = 45)"

text \<open>A sequence of one-character classes consumes that many characters and leaves the rest.\<close>

fun match_classes :: "(nat \<Rightarrow> bool) list \<Rightarrow> pystr \<Rightarrow> pystr option" where
  "match_classes [] s = Some s"
| "match_classes (p # ps) [] = None"
| "match_classes (p # ps) (c # s) = (if p c then match_classes ps s else None)"

definition pattern :: "(nat \<Rightarrow> bool) list" where
  "pattern =
     replicate 4 re_digit @ [re_hyphen] @ replicate 2 re_A_Z @ [re_hyphen] @
     replicate 4 re_digit @ [re_hyphen] @ replicate 6 re_A_F0_9"

text \<open>
  \<open>re.match(r'^\d{4}-[A-Z]{2}-\d{4}-[A-F0-9]{6}$', serial_number)\<close>: without the MULTILINE
  flag \<open>$\<close> matches at the end of the string and also just before a line feed that ends it.
\<close>

definition validate_serial_number :: "pystr \<Rightarrow> bool" where
  "validate_serial_number serial =
     (case match_classes pattern serial of
        None \<Rightarrow> False
      | Some rest \<Rightarrow> rest = [] \<or> rest = [10])"

section \<open>SHA-256 (\<open>hashlib.sha256(...).hexdigest()\<close>)\<close>

definition rotr :: "nat \<Rightarrow> u32 \<Rightarrow> u32" where
  "rotr n x = drop_bit n x OR push_bit (32 - n) x"

definition K256 :: "u32 list" where
  "K256 = [
   0x428A2F98, 0x71374491, 0xB5C0FBCF, 0xE9B5DBA5, 0x3956C25B, 0x59F111F1, 0x923F82A4, 0xAB1C5ED5,
   0xD807AA98, 0x12835B01, 0x243185BE, 0x550C7DC3, 0x72BE5D74, 0x80DEB1FE, 0x9BDC06A7, 0xC19BF174,
   0xE49B69C1, 0xEFBE4786, 0x0FC19DC6, 0x240CA1CC, 0x2DE92C6F, 0x4A7484AA, 0x5CB0A9DC, 0x76F988DA,
   0x983E5152, 0xA831C66D, 0xB00327C8, 0xBF597FC7, 0xC6E00BF3, 0xD5A79147, 0x06CA6351, 0x14292967,
   0x27B70A85, 0x2E1B2138, 0x4D2C6DFC, 0x53380D13, 0x650A7354, 0x766A0ABB, 0x81C2C92E, 0x92722C85,
   0xA2BFE8A1, 0xA81A664B, 0xC24B8B70, 0xC76C51A3, 0xD192E819, 0xD6990624, 0xF40E3585, 0x106AA070,
   0x19A4C116, 0x1E376C08, 0x2748774C, 0x34B0BCB5, 0x391C0CB3, 0x4ED8AA4A, 0x5B9CCA4F, 0x682E6FF3,
   0x748F82EE, 0x78A5636F, 0x84C87814, 0x8CC70208, 0x90BEFFFA, 0xA4506CEB, 0xBEF9A3F7, 0xC67178F2]"

definition H0 :: "u32 list" where
  "H0 = [0x6A09E667, 0xBB67AE85, 0x3C6EF372, 0xA54FF53A,
         0x510E527F, 0x9B05688C, 0x1F83D9AB, 0x5BE0CD19]"

definition ssig0 :: "u32 \<Rightarrow> u32" where
  "ssig0 x = rotr 7 x XOR rotr 18 x XOR drop_bit 3 x"

definition ssig1 :: "u32 \<Rightarrow> u32" where
  "ssig1 x = rotr 17 x XOR rotr 19 x XOR drop_bit 10 x"

definition bsig0 :: "u32 \<Rightarrow> u32" where
  "bsig0 x = rotr 2 x XOR rotr 13 x XOR rotr 22 x"

definition bsig1 :: "u32 \<Rightarrow> u32" where
  "bsig1 x = rotr 6 x XOR rotr 11 x XOR rotr 25 x"

definition ch :: "u32 \<Rightarrow> u32 \<Rightarrow> u32 \<Rightarrow> u32" where
  "ch x y z = (x AND y) XOR (NOT x AND z)"

definition maj :: "u32 \<Rightarrow> u32 \<Rightarrow> u32 \<Rightarrow> u32" where
  "maj x y z = (x AND y) XOR (x AND z) XOR (y AND z)"

definition be64 :: "64 word \<Rightarrow> byte list" where
  "be64 n = map (\<lambda>i. ucast (drop_bit (8 * (7 - i)) n)) [0..<8]"

text \<open>The message, the byte 0x80, zero bytes up to 56 modulo 64, the bit length on 8 bytes.\<close>

definition pad :: "byte list \<Rightarrow> byte list" where
  "pad m = m @ [0x80] @ replicate ((55 - length m mod 64) mod 64) 0 @
           be64 (8 * word_of_nat (length m))"

fun words_of :: "byte list \<Rightarrow> u32 list" where
  "words_of (a # b # c # d # r) =
     (push_bit 24 (ucast a) OR push_bit 16 (ucast b) OR push_bit 8 (ucast c) OR ucast d)
       # words_of r"
| "words_of _ = []"

fun blocks :: "u32 list \<Rightarrow> u32 list list" where
  "blocks (w0 # w1 # w2 # w3 # w4 # w5 # w6 # w7 # w8 # w9 # w10 # w11 # w12 # w13 # w14 # w15 # r) =
     [w0, w1, w2, w3, w4, w5, w6, w7, w8, w9, w10, w11, w12, w13, w14, w15] # blocks r"
| "blocks _ = []"

text \<open>The message schedule: a window of 16 words slides 64 times, giving one word each time.\<close>

fun schedule :: "nat \<Rightarrow> u32 list \<Rightarrow> u32 list" where
  "schedule (Suc n) [w0, w1, w2, w3, w4, w5, w6, w7, w8, w9, w10, w11, w12, w13, w14, w15] =
     w0 # schedule n [w1, w2, w3, w4, w5, w6, w7, w8, w9, w10, w11, w12, w13, w14, w15,
                      ssig1 w14 + w9 + ssig0 w1 + w0]"
| "schedule _ _ = []"

fun rounds :: "u32 list \<Rightarrow> u32 list \<Rightarrow> u32 list \<Rightarrow> u32 list" where
  "rounds (k # ks) (w # ws) [a, b, c, d, e, f, g, h] =
     (let t1 = h + bsig1 e + ch e f g + k + w; t2 = bsig0 a + maj a b c
      in rounds ks ws [t1 + t2, a, b, c, d + t1, e, f, g])"
| "rounds _ _ s = s"

definition compress :: "u32 list \<Rightarrow> u32 list \<Rightarrow> u32 list" where
  "compress s blk = map2 (+) s (rounds K256 (schedule 64 blk) s)"

definition sha256 :: "byte list \<Rightarrow> u32 list" where
  "sha256 m = foldl compress H0 (blocks (words_of (pad m)))"

definition hexchar :: "4 word \<Rightarrow> nat" where
  "hexchar n = (if n < 10 then 48 + unat n else 87 + unat n)"

definition hex_word :: "u32 \<Rightarrow> pystr" where
  "hex_word w = map (\<lambda>i. hexchar (ucast (drop_bit (4 * (7 - i)) w))) [0..<8]"

definition hexdigest :: "byte list \<Rightarrow> pystr" where
  "hexdigest m = concat (map hex_word (sha256 m))"

section \<open>The store\<close>

text \<open>
  The rows of \<open>models/certificate_models.py\<close> that the generator reads, with the columns
  it uses (the primary keys are named \<open>id_Course\<close> and \<open>id_Certificate\<close>). \<open>status\<close> and
  \<open>issue_date\<close> are the ones of them that may be NULL. A table is the list of its rows; a
  session gives access to the tables.
\<close>

record Course =
  id_Course :: int
  course_code :: pystr
  course_name :: pystr

record Certificate =
  id_Certificate :: int
  student_id :: int
  course_id :: int
  serial_number :: pystr
  sequential_part :: int
  hash_part :: pystr
  issue_date :: "(int \<times> int \<times> int) option"
  issue_year :: int
  status :: "pystr option"

record store =
  courses :: "Course list"
  certificates :: "Certificate list"

text \<open>\<open>func.max(...)\<close> over the selected rows: \<open>None\<close> when there is none.\<close>

fun sql_max :: "int list \<Rightarrow> int option" where
  "sql_max [] = None"
| "sql_max (x # xs) = Some (fold max xs x)"

definition max_sequential :: "store \<Rightarrow> int \<Rightarrow> int \<Rightarrow> int option" where
  "max_sequential db cid year =
     sql_max (map sequential_part
       (filter (\<lambda>c. course_id c = cid \<and> issue_year c = year) (certificates db)))"

section \<open>\<open>utils/certificate_generator.py\<close>\<close>

text \<open>The f-string \<open>f"{a}-{b}-{c}-{d}"\<close> over four texts.\<close>

definition join4 :: "pystr \<Rightarrow> pystr \<Rightarrow> pystr \<Rightarrow> pystr \<Rightarrow> pystr" where
  "join4 a b c d = a @ py ''-'' @ b @ py ''-'' @ c @ py ''-'' @ d"

text \<open>
  \<open>generate_serial_number(db, student_id, course_id)\<close>; the two ids are written \<open>sid\<close> and
  \<open>cid\<close>, the names of the columns being taken. A raised exception is the \<open>Inl\<close> result.
\<close>

definition generate_serial_number ::
  "runtime \<Rightarrow> store \<Rightarrow> int \<Rightarrow> int \<Rightarrow> py_error + (pystr \<times> int \<times> pystr)" where
  "generate_serial_number rt db sid cid =
     (let current_year = now_year rt in
      case find (\<lambda>c. id_Course c = cid) (courses db) of
        None \<Rightarrow> Inl (ValueError (py ''Course with ID '' @ str_int cid @ py '' not found''))
      | Some course \<Rightarrow>
          (let code = upper rt (course_code course);
               next_sequential =
                 (case max_sequential db cid current_year of None \<Rightarrow> 0 | Some m \<Rightarrow> m) + 1;
               sequential_str = format_04d next_sequential;
               hash_input = join4 (str_int sid) (str_int cid) (str_int current_year)
                              sequential_str
           in (case encode hash_input of
                 Inl e \<Rightarrow> Inl e
               | Inr bytes \<Rightarrow>
                   (let hash_hex = hexdigest bytes;
                        verification_hash = upper rt (take 6 hash_hex)
                    in Inr (join4 (str_int current_year) code sequential_str
                              verification_hash,
                            next_sequential, verification_hash)))))"

text \<open>The dictionary that \<open>verify_certificate_authenticity\<close> returns.\<close>

record verification =
  is_valid :: bool
  reason :: pystr
  certificate :: "Certificate option"

text \<open>\<open>f"{certificate.status}"\<close>: a NULL status prints as \<open>None\<close>.\<close>

definition str_status :: "pystr option \<Rightarrow> pystr" where
  "str_status st = (case st of None \<Rightarrow> py ''None'' | Some s \<Rightarrow> s)"

text \<open>\<open>year, course_code, sequential, provided_hash = parts\<close> raises unless there are four.\<close>

fun unpack4 :: "pystr list \<Rightarrow> py_error + (pystr \<times> pystr \<times> pystr \<times> pystr)" where
  "unpack4 [a, b, c, d] = Inr (a, b, c, d)"
| "unpack4 parts =
     (if length parts < 4
      then Inl (ValueError (py ''not enough values to unpack (expected 4, got '' @
                            str_int (int (length parts)) @ py '')''))
      else Inl (ValueError (py ''too many values to unpack (expected 4)'')))"

definition verify_certificate_authenticity ::
  "runtime \<Rightarrow> store \<Rightarrow> pystr \<Rightarrow> py_error + verification" where
  "verify_certificate_authenticity rt db serial =
     (if \<not> validate_serial_number serial then
        Inr \<lparr>is_valid = False, reason = py ''Invalid serial number format'', certificate = None\<rparr>
      else
        case find (\<lambda>c. serial_number c = serial) (certificates db) of
          None \<Rightarrow>
            Inr \<lparr>is_valid = False, reason = py ''Certificate not found in database'',
                 certificate = None\<rparr>
        | Some cert \<Rightarrow>
            (if status cert \<noteq> Some (py ''active'') then
               Inr \<lparr>is_valid = False,
                    reason = py ''Certificate status is '' @ str_status (status cert),
                    certificate = Some cert\<rparr>
             else
               (case unpack4 (split 45 serial) of
                  Inl e \<Rightarrow> Inl e
                | Inr (year, code, sequential, provided_hash) \<Rightarrow>
                    (let hash_input = join4 (str_int (student_id cert))
                                        (str_int (course_id cert)) year sequential
                     in case encode hash_input of
                       Inl e \<Rightarrow> Inl e
                     | Inr bytes \<Rightarrow>
                         (let expected_hash = upper rt (take 6 (hexdigest bytes)) in
                          if provided_hash \<noteq> expected_hash then
                            Inr \<lparr>is_valid = False,
                                 reason = py ''Hash verification failed - certificate may be forged'',
                                 certificate = Some cert\<rparr>
                          else
                            Inr \<lparr>is_valid = True,
                                 reason = py ''Certificate is authentic and valid'',
                                 certificate = Some cert\<rparr>)))))"

subsection \<open>Persisting an issued certificate\<close>

text \<open>
  Modelled from the spec: the caller's insert of the issued row is not in the repository's
  sources. The spec (4.1 step 8) has the caller persist a Certificate row with the returned
  values plus \<open>issue_year = year\<close>; the column \<open>serial_number\<close> is declared unique, so the
  store refuses a row whose serial is already there (the spec's IntegrityConflict).
\<close>

definition insert_certificate :: "store \<Rightarrow> Certificate \<Rightarrow> py_error + store" where
  "insert_certificate db row =
     (if serial_number row \<in> set (map serial_number (certificates db)) then Inl IntegrityError
      else Inr (db\<lparr>certificates := certificates db @ [row]\<rparr>))"

text \<open>
  Modelled from the spec: one issuance, the generator followed by the caller's insert of an
  active row carrying what the generator returned.
\<close>

definition issue :: "runtime \<Rightarrow> store \<Rightarrow> int \<Rightarrow> int \<Rightarrow> py_error + (store \<times> int)" where
  "issue rt db sid cid =
     (case generate_serial_number rt db sid cid of
        Inl e \<Rightarrow> Inl e
      | Inr (serial, sequence, checksum) \<Rightarrow>
          (case insert_certificate db
                  \<lparr>id_Certificate = int (length (certificates db)) + 1, student_id = sid,
                   course_id = cid, serial_number = serial, sequential_part = sequence,
                   hash_part = checksum, issue_date = None, issue_year = now_year rt,
                   status = Some (py ''active'')\<rparr> of
             Inl e \<Rightarrow> Inl e
           | Inr db' \<Rightarrow> Inr (db', sequence)))"

text \<open>Issuing serially for a list of students in one course; the sequences in order.\<close>

fun issue_all :: "runtime \<Rightarrow> store \<Rightarrow> int \<Rightarrow> int list \<Rightarrow> py_error + (store \<times> int list)" where
  "issue_all rt db cid [] = Inr (db, [])"
| "issue_all rt db cid (sid # sids) =
     (case issue rt db sid cid of
        Inl e \<Rightarrow> Inl e
      | Inr (db', sequence) \<Rightarrow>
          (case issue_all rt db' cid sids of
             Inl e \<Rightarrow> Inl e
           | Inr (db'', sequences) \<Rightarrow> Inr (db'', sequence # sequences)))"

section \<open>The serial format in the words of the spec\<close>





text \<open>A course code the spec calls valid: Latin letters, of either case.\<close>

definition ascii_letter :: "nat \<Rightarrow> bool" where
  "ascii_letter c = ((65 \<le> c \<and> c \<le> 90) \<or> (97 \<le> c \<and> c \<le> 122))"

section \<open>The checksum in the words of the spec\<close>

text \<open>
  Section 4.1, steps 5 and 6: the first 6 hexadecimal characters, in upper case, of the
  SHA-256 digest of the text \<open>{student_id}-{course_id}-{year}-{padded_sequence}\<close>, whose
  characters are ASCII and so are their own UTF-8 bytes.
\<close>

definition ascii_upper :: "nat \<Rightarrow> nat" where
  "ascii_upper c = (if 97 \<le> c \<and> c \<le> 122 then c - 32 else c)"

definition spec_checksum :: "int \<Rightarrow> int \<Rightarrow> int \<Rightarrow> pystr \<Rightarrow> pystr" where
  "spec_checksum sid cid year padded =
     map ascii_upper (take 6 (hexdigest (map of_nat
       (str_int sid @ py ''-'' @ str_int cid @ py ''-'' @ str_int year @ py ''-'' @ padded))))"

section \<open>The partition in the words of the spec\<close>

text \<open>
  Section 4.1, step 2: the sequence numbers stored in the partition of a course and a year.
\<close>

definition partition_sequences :: "store \<Rightarrow> int \<Rightarrow> int \<Rightarrow> int set" where
  "partition_sequences db cid year =
     sequential_part ` {c \<in> set (certificates db). course_id c = cid \<and> issue_year c = year}"

text \<open>Steps 2 and 3: the maximum of the partition, an empty partition counting as 0, plus 1.\<close>

definition spec_sequence :: "store \<Rightarrow> int \<Rightarrow> int \<Rightarrow> int" where
  "spec_sequence db cid year =
     (if partition_sequences db cid year = {} then 0 else Max (partition_sequences db cid year)) + 1"

section \<open>Example stores\<close>

text \<open>
  A runtime in the year 2024 (the examples are ASCII, so its table for other code points is
  never consulted), one course whose code is stored in lower case, and stores over it.
\<close>

definition rt2024 :: runtime where
  "rt2024 = \<lparr>now_year = 2024, upper_nonascii = (\<lambda>c. [c])\<rparr>"

definition web_course :: Course where
  "web_course = \<lparr>id_Course = 1, course_code = py ''wd'', course_name = py ''Web Development''\<rparr>"

definition db_empty :: store where
  "db_empty = \<lparr>courses = [web_course], certificates = []\<rparr>"

definition cert1 :: Certificate where
  "cert1 = \<lparr>id_Certificate = 1, student_id = 1, course_id = 1,
             serial_number = py ''2024-WD-0001-473895'', sequential_part = 1,
             hash_part = py ''473895'', issue_date = None, issue_year = 2024,
             status = Some (py ''active'')\<rparr>"

definition cert2 :: Certificate where
  "cert2 = \<lparr>id_Certificate = 2, student_id = 2, course_id = 1,
             serial_number = py ''2024-WD-0002-86DAA1'', sequential_part = 2,
             hash_part = py ''86DAA1'', issue_date = None, issue_year = 2024,
             status = Some (py ''active'')\<rparr>"

definition db1 :: store where
  "db1 = \<lparr>courses = [web_course], certificates = [cert1]\<rparr>"

definition db2 :: store where
  "db2 = \<lparr>courses = [web_course], certificates = [cert1, cert2]\<rparr>"

text \<open>The same certificate, revoked.\<close>

definition db_revoked :: store where
  "db_revoked = \<lparr>courses = [web_course],
                 certificates = [cert1\<lparr>status := Some (py ''revoked'')\<rparr>]\<rparr>"

text \<open>The same certificate with other derived columns, and the course under another code.\<close>

definition db_derived :: store where
  "db_derived =
     \<lparr>courses = [web_course\<lparr>course_code := py ''DS''\<rparr>],
      certificates = [cert1\<lparr>sequential_part := 77, hash_part := py ''000000'',
                           issue_date := Some (1999, 12, 31), issue_year := 1999\<rparr>]\<rparr>"

text \<open>A partition whose highest sequence is 9999.\<close>

definition cert9999 :: Certificate where
  "cert9999 = \<lparr>id_Certificate = 9999, student_id = 5, course_id = 1,
                serial_number = py ''2024-WD-9999-C65A47'', sequential_part = 9999,
                hash_part = py ''C65A47'', issue_date = None, issue_year = 2024,
                status = Some (py ''active'')\<rparr>"

definition db9999 :: store where
  "db9999 = \<lparr>courses = [web_course], certificates = [cert9999]\<rparr>"

text \<open>The row that continues that partition, and the store after its insert.\<close>

definition cert10000 :: Certificate where
  "cert10000 = \<lparr>id_Certificate = 10000, student_id = 1, course_id = 1,
                 serial_number = py ''2024-WD-10000-0360AA'', sequential_part = 10000,
                 hash_part = py ''0360AA'', issue_date = None, issue_year = 2024,
                 status = Some (py ''active'')\<rparr>"

definition db10000 :: store where
  "db10000 = \<lparr>courses = [web_course], certificates = [cert9999, cert10000]\<rparr>"

text \<open>A course whose two-character code holds a digit.\<close>

definition db_w1 :: store where
  "db_w1 = \<lparr>courses = [web_course\<lparr>course_code := py ''w1''\<rparr>], certificates = []\<rparr>"

text \<open>The first certificate with the last character of its stored serial changed.\<close>

definition db_tampered :: store where
  "db_tampered = \<lparr>courses = [web_course],
                  certificates = [cert1\<lparr>serial_number := py ''2024-WD-0001-473896''\<rparr>]\<rparr>"

section \<open>Facts about the string functions\<close>

lemma digits_ascii: "set (digits n) \<subseteq> {48..57}"
proof (induction n rule: digits.induct)
  case (1 n)
  show ?case
  proof (cases "n < 10")
    case True
    then show ?thesis by (subst digits.simps) auto
  next
    case False
    have "n mod 10 < 10" by simp
    then have "48 + n mod 10 \<in> {48..57}" by auto
    with 1 False show ?thesis by (subst digits.simps) auto
  qed
qed

lemma digits_nonempty: "digits n \<noteq> []"
  by (subst digits.simps) simp

lemma digits_length: "n < 10 ^ k \<Longrightarrow> 0 < k \<Longrightarrow> length (digits n) \<le> k"
proof (induction n arbitrary: k rule: digits.induct)
  case (1 n)
  show ?case
  proof (cases "n < 10")
    case True
    with 1 show ?thesis by (subst digits.simps) auto
  next
    case False
    with 1(2,3) have k: "1 < k" by (cases "k = 1") auto
    then obtain j where j: "k = Suc j" "0 < j" by (cases k) auto
    from 1(2) j have "n div 10 < 10 ^ j"
      by (simp add: less_mult_imp_div_less mult.commute)
    with 1(1) [OF False this] j False show ?thesis by (subst digits.simps) auto
  qed
qed

lemma digits_4: "1000 \<le> n \<Longrightarrow> n < 10000 \<Longrightarrow> length (digits n) = 4"
proof -
  assume a: "1000 \<le> n" "n < 10000"
  have 1: "\<not> n < 10" "\<not> n div 10 < 10" "\<not> n div 10 div 10 < 10" "n div 10 div 10 div 10 < 10"
    using a by auto
  show ?thesis
    by (subst digits.simps, simp only: 1 if_False, subst digits.simps, simp only: 1 if_False,
        subst digits.simps, simp only: 1 if_False, subst digits.simps, simp only: 1 if_True) simp
qed

lemma encode_ascii: "list_all (\<lambda>c. c < 128) s \<Longrightarrow> encode s = Inr (map of_nat s)"
  by (induction s) (auto simp: utf8_cp_def)

lemma encode_append:
  "encode (a @ b) =
     (case encode a of Inl e \<Rightarrow> Inl e
      | Inr x \<Rightarrow> (case encode b of Inl e \<Rightarrow> Inl e | Inr y \<Rightarrow> Inr (x @ y)))"
  by (induction a) (auto split: sum.splits)

lemma str_int_ascii: "list_all (\<lambda>c. c < 128) (str_int n)"
  using digits_ascii [of "nat n"] digits_ascii [of "nat (- n)"]
  by (auto simp: str_int_def list_all_iff)

lemma zfill_digits: "set ds \<subseteq> {48..57} \<Longrightarrow> set (zfill w ds) \<subseteq> {48..57}"
  by (auto simp: zfill_def)

lemma format_04d_ascii: "list_all (\<lambda>c. c < 128) (format_04d n)"
  using zfill_digits [OF digits_ascii, of 3 "nat (- n)"] zfill_digits [OF digits_ascii, of 4 "nat n"]
  by (auto simp: format_04d_def list_all_iff)

lemma format_04d_4:
  assumes "0 \<le> n" "n \<le> 9999"
  shows "length (format_04d n) = 4" "set (format_04d n) \<subseteq> {48..57}"
proof -
  from assms have "nat n < 10 ^ 4" by simp
  then have "length (digits (nat n)) \<le> 4" by (rule digits_length) simp
  with assms show "length (format_04d n) = 4" by (simp add: format_04d_def zfill_def)
  from assms show "set (format_04d n) \<subseteq> {48..57}"
    using zfill_digits [OF digits_ascii, of 4 "nat n"] by (simp add: format_04d_def)
qed

lemma str_int_4:
  assumes "1000 \<le> y" "y \<le> 9999"
  shows "length (str_int y) = 4" "set (str_int y) \<subseteq> {48..57}"
  using assms digits_4 [of "nat y"] digits_ascii [of "nat y"] by (auto simp: str_int_def)

lemma upper_ascii:
  "list_all (\<lambda>c. c < 128) s \<Longrightarrow>
   upper rt s = map (\<lambda>c. if 97 \<le> c \<and> c \<le> 122 then c - 32 else c) s"
  by (induction s) (auto simp: upper_def upper_cp_def)

lemma split_no_sep: "sep \<notin> set a \<Longrightarrow> split sep a = [a]"
  by (induction a) auto

lemma split_append: "sep \<notin> set a \<Longrightarrow> split sep (a @ sep # b) = a # split sep b"
  by (induction a) auto

lemma match_append:
  "match_classes (ps @ qs) s =
     (case match_classes ps s of None \<Rightarrow> None | Some r \<Rightarrow> match_classes qs r)"
  by (induction ps s rule: match_classes.induct) auto

lemma match_Cons_iff:
  "match_classes (p # ps) s = Some r \<longleftrightarrow> (\<exists>c s'. s = c # s' \<and> p c \<and> match_classes ps s' = Some r)"
  by (cases s) auto

lemma pattern_unfold:
  "pattern = [re_digit, re_digit, re_digit, re_digit, re_hyphen, re_A_Z, re_A_Z, re_hyphen,
              re_digit, re_digit, re_digit, re_digit, re_hyphen,
              re_A_F0_9, re_A_F0_9, re_A_F0_9, re_A_F0_9, re_A_F0_9, re_A_F0_9]"
  by (simp add: pattern_def eval_nat_numeral)

lemma validate_explicit:
  "validate_serial_number s \<longleftrightarrow>
    (\<exists>y1 y2 y3 y4 c1 c2 n1 n2 n3 n4 v1 v2 v3 v4 v5 v6 rest.
       s = [y1, y2, y3, y4, 45, c1, c2, 45, n1, n2, n3, n4, 45, v1, v2, v3, v4, v5, v6] @ rest \<and>
       (rest = [] \<or> rest = [10]) \<and>
       re_digit y1 \<and> re_digit y2 \<and> re_digit y3 \<and> re_digit y4 \<and> re_A_Z c1 \<and> re_A_Z c2 \<and>
       re_digit n1 \<and> re_digit n2 \<and> re_digit n3 \<and> re_digit n4 \<and>
       re_A_F0_9 v1 \<and> re_A_F0_9 v2 \<and> re_A_F0_9 v3 \<and> re_A_F0_9 v4 \<and> re_A_F0_9 v5 \<and> re_A_F0_9 v6)"
  unfolding validate_serial_number_def pattern_unfold
  by (auto simp: match_Cons_iff re_hyphen_def split: option.splits)

lemma re_digit_ascii: "c < 128 \<Longrightarrow> re_digit c \<longleftrightarrow> 48 \<le> c \<and> c \<le> 57"
  unfolding re_digit_def decimal_zeros_def by (simp, linarith)

lemma re_digit_not_surrogate: "re_digit c \<Longrightarrow> \<not> (55296 \<le> c \<and> c \<le> 57343)"
  unfolding re_digit_def decimal_zeros_def by (simp, linarith)

lemma re_digit_not_hyphen: "re_digit c \<Longrightarrow> c \<noteq> 45"
  unfolding re_digit_def decimal_zeros_def by (simp, linarith)

lemma re_A_Z_not_hyphen: "re_A_Z c \<Longrightarrow> c \<noteq> 45"
  by (auto simp: re_A_Z_def)

lemma re_A_F0_9_not_hyphen: "re_A_F0_9 c \<Longrightarrow> c \<noteq> 45"
  by (auto simp: re_A_F0_9_def)

lemma utf8_cp_digit: "re_digit c \<Longrightarrow> \<exists>bs. utf8_cp c = Inr bs"
  using re_digit_not_surrogate [of c] by (auto simp: utf8_cp_def)

lemma encode_digits: "list_all re_digit s \<Longrightarrow> \<exists>bs. encode s = Inr bs"
proof (induction s)
  case Nil
  then show ?case by simp
next
  case (Cons c s)
  then obtain bs r where "utf8_cp c = Inr bs" "encode s = Inr r"
    using utf8_cp_digit [of c] by auto
  then show ?case by simp
qed

lemma rounds_length: "length s = 8 \<Longrightarrow> length (rounds ks ws s) = 8"
  by (induction ks ws s rule: rounds.induct) (auto simp: Let_def)

lemma compress_length: "length s = 8 \<Longrightarrow> length (compress s blk) = 8"
  by (simp add: compress_def rounds_length)

lemma foldl_compress_length: "length s = 8 \<Longrightarrow> length (foldl compress s bs) = 8"
  by (induction bs arbitrary: s) (auto simp: compress_length)

lemma sha256_length: "length (sha256 m) = 8"
  by (simp add: sha256_def foldl_compress_length H0_def)

lemma hexchar_range: "hexchar n \<in> {48..57} \<union> {97..102}"
proof -
  have "unat n < 2 ^ LENGTH(4)" by (rule unsigned_less)
  then have "unat n < 16" by simp
  moreover have "n < 10 \<longleftrightarrow> unat n < 10" by (simp add: word_less_nat_alt)
  ultimately show ?thesis by (auto simp: hexchar_def)
qed

lemma hex_word_chars: "length (hex_word w) = 8" "set (hex_word w) \<subseteq> {48..57} \<union> {97..102}"
proof -
  show "length (hex_word w) = 8" by (simp add: hex_word_def)
  show "set (hex_word w) \<subseteq> {48..57} \<union> {97..102}"
    unfolding hex_word_def using hexchar_range by (simp add: image_subset_iff)
qed

lemma length_concat_hex: "length (concat (map hex_word ws)) = 8 * length ws"
  by (induction ws) (auto simp: hex_word_chars)

lemma hexdigest_chars:
  "length (hexdigest m) = 64" "set (hexdigest m) \<subseteq> {48..57} \<union> {97..102}"
  using hex_word_chars(2) by (auto simp: hexdigest_def length_concat_hex sha256_length)

text \<open>The checksum: the first six hexadecimal digits, in upper case.\<close>

lemma checksum_chars:
  "length (upper rt (take 6 (hexdigest m))) = 6"
  "list_all re_A_F0_9 (upper rt (take 6 (hexdigest m)))"
proof -
  have s: "set (take 6 (hexdigest m)) \<subseteq> {48..57} \<union> {97..102}"
    using hexdigest_chars(2) [of m] set_take_subset [of 6 "hexdigest m"] by blast
  then have a: "list_all (\<lambda>c. c < 128) (take 6 (hexdigest m))"
    by (auto simp: list_all_iff)
  show "length (upper rt (take 6 (hexdigest m))) = 6"
    by (simp add: upper_ascii [OF a] hexdigest_chars(1))
  show "list_all re_A_F0_9 (upper rt (take 6 (hexdigest m)))"
    using s by (auto simp: upper_ascii [OF a] list_all_iff re_A_F0_9_def)
qed

lemma py_hyphen: "py ''-'' = [45]"
  by (simp add: py_def)

lemma join4_eq: "join4 a b c d = a @ 45 # b @ 45 # c @ 45 # d"
  by (simp add: join4_def py_hyphen)

lemma encode_append_ok:
  "\<exists>x. encode a = Inr x \<Longrightarrow> \<exists>y. encode b = Inr y \<Longrightarrow> \<exists>z. encode (a @ b) = Inr z"
  by (auto simp: encode_append)

lemma encode_hyphen_ok: "\<exists>y. encode b = Inr y \<Longrightarrow> \<exists>z. encode (45 # b) = Inr z"
  by (auto simp: utf8_cp_def)

lemma encode_join4_ok:
  assumes "\<exists>x. encode a = Inr x" "\<exists>x. encode b = Inr x" "\<exists>x. encode c = Inr x"
    "\<exists>x. encode d = Inr x"
  shows "\<exists>z. encode (join4 a b c d) = Inr z"
  unfolding join4_eq
  by (intro encode_append_ok encode_hyphen_ok assms)

lemma str_int_encode_ok: "\<exists>x. encode (str_int n) = Inr x"
  using encode_ascii [OF str_int_ascii] by blast

lemma validate_parts:
  assumes "validate_serial_number s"
  obtains year code seq h where
    "s = year @ 45 # code @ 45 # seq @ 45 # h"
    "split 45 s = [year, code, seq, h]"
    "length year = 4" "list_all re_digit year"
    "length code = 2" "list_all re_A_Z code"
    "length seq = 4" "list_all re_digit seq"
    "6 \<le> length h" "length h \<le> 7" "list_all re_A_F0_9 (take 6 h)"
proof -
  from assms obtain y1 y2 y3 y4 c1 c2 n1 n2 n3 n4 v1 v2 v3 v4 v5 v6 rest where
    s: "s = [y1, y2, y3, y4, 45, c1, c2, 45, n1, n2, n3, n4, 45, v1, v2, v3, v4, v5, v6] @ rest"
    and rest: "rest = [] \<or> rest = [10]"
    and y: "re_digit y1" "re_digit y2" "re_digit y3" "re_digit y4"
    and c: "re_A_Z c1" "re_A_Z c2"
    and n: "re_digit n1" "re_digit n2" "re_digit n3" "re_digit n4"
    and v: "re_A_F0_9 v1" "re_A_F0_9 v2" "re_A_F0_9 v3" "re_A_F0_9 v4" "re_A_F0_9 v5"
      "re_A_F0_9 v6"
    unfolding validate_explicit by blast
  have ne: "y1 \<noteq> 45" "y2 \<noteq> 45" "y3 \<noteq> 45" "y4 \<noteq> 45" "n1 \<noteq> 45" "n2 \<noteq> 45" "n3 \<noteq> 45" "n4 \<noteq> 45"
    by (rule re_digit_not_hyphen, fact)+
  have nc: "c1 \<noteq> 45" "c2 \<noteq> 45"
    by (rule re_A_Z_not_hyphen, fact)+
  have nv: "v1 \<noteq> 45" "v2 \<noteq> 45" "v3 \<noteq> 45" "v4 \<noteq> 45" "v5 \<noteq> 45" "v6 \<noteq> 45"
    by (rule re_A_F0_9_not_hyphen, fact)+
  let ?h = "[v1, v2, v3, v4, v5, v6] @ rest"
  have r: "45 \<notin> set ?h"
    using nv rest by auto
  have "split 45 ([y1, y2, y3, y4] @ 45 # ([c1, c2] @ 45 # ([n1, n2, n3, n4] @ 45 # ?h)))
          = [[y1, y2, y3, y4], [c1, c2], [n1, n2, n3, n4], ?h]"
  proof -
    have a: "45 \<notin> set [y1, y2, y3, y4]" "45 \<notin> set [c1, c2]" "45 \<notin> set [n1, n2, n3, n4]"
      using ne nc by auto
    show ?thesis
      by (simp only: split_append [OF a(1)] split_append [OF a(2)] split_append [OF a(3)]
            split_no_sep [OF r])
  qed
  then have "split 45 s = [[y1, y2, y3, y4], [c1, c2], [n1, n2, n3, n4], ?h]"
    by (simp add: s)
  moreover have "s = [y1, y2, y3, y4] @ 45 # [c1, c2] @ 45 # [n1, n2, n3, n4] @ 45 # ?h"
    by (simp add: s)
  moreover have "6 \<le> length ?h" "length ?h \<le> 7" "list_all re_A_F0_9 (take 6 ?h)"
    using rest v by auto
  ultimately show ?thesis
    using y c n by (intro that [of "[y1, y2, y3, y4]" "[c1, c2]" "[n1, n2, n3, n4]" ?h]) simp_all
qed

lemma verify_hash_step:
  assumes "validate_serial_number s"
  shows "\<exists>year code seq h bytes. unpack4 (split 45 s) = Inr (year, code, seq, h) \<and>
           encode (join4 (str_int a) (str_int b) year seq) = Inr bytes"
proof -
  from assms obtain year code seq h where p: "split 45 s = [year, code, seq, h]"
    "list_all re_digit year" "list_all re_digit seq"
    by (rule validate_parts)
  have "\<exists>z. encode (join4 (str_int a) (str_int b) year seq) = Inr z"
    by (intro encode_join4_ok str_int_encode_ok encode_digits p)
  with p(1) show ?thesis by auto
qed

lemma verify_not_valid:
  "\<not> validate_serial_number s \<Longrightarrow>
   verify_certificate_authenticity rt db s =
     Inr \<lparr>is_valid = False, reason = py ''Invalid serial number format'', certificate = None\<rparr>"
  by (simp add: verify_certificate_authenticity_def)

lemma verify_not_found:
  "validate_serial_number s \<Longrightarrow> find (\<lambda>c. serial_number c = s) (certificates db) = None \<Longrightarrow>
   verify_certificate_authenticity rt db s =
     Inr \<lparr>is_valid = False, reason = py ''Certificate not found in database'',
          certificate = None\<rparr>"
  by (simp add: verify_certificate_authenticity_def)

lemma verify_not_active:
  "validate_serial_number s \<Longrightarrow> find (\<lambda>c. serial_number c = s) (certificates db) = Some cert \<Longrightarrow>
   status cert \<noteq> Some (py ''active'') \<Longrightarrow>
   verify_certificate_authenticity rt db s =
     Inr \<lparr>is_valid = False, reason = py ''Certificate status is '' @ str_status (status cert),
          certificate = Some cert\<rparr>"
  by (simp add: verify_certificate_authenticity_def)

lemma verify_active:
  assumes "validate_serial_number s"
    "find (\<lambda>c. serial_number c = s) (certificates db) = Some cert"
    "status cert = Some (py ''active'')"
    "split 45 s = [year, code, seq, h]"
    "encode (join4 (str_int (student_id cert)) (str_int (course_id cert)) year seq) = Inr bytes"
  shows "verify_certificate_authenticity rt db s =
     (if h \<noteq> upper rt (take 6 (hexdigest bytes)) then
        Inr \<lparr>is_valid = False,
             reason = py ''Hash verification failed - certificate may be forged'',
             certificate = Some cert\<rparr>
      else
        Inr \<lparr>is_valid = True, reason = py ''Certificate is authentic and valid'',
             certificate = Some cert\<rparr>)"
  using assms by (simp add: verify_certificate_authenticity_def Let_def)

lemmas validate_eval = validate_serial_number_def pattern_unfold py_def re_digit_ascii
  re_A_Z_def re_A_F0_9_def re_hyphen_def

lemma format_04d_encode_ok: "\<exists>x. encode (format_04d n) = Inr x"
  using encode_ascii [OF format_04d_ascii] by blast

lemma generate_no_course:
  "find (\<lambda>c. id_Course c = cid) (courses db) = None \<Longrightarrow>
   generate_serial_number rt db sid cid =
     Inl (ValueError (py ''Course with ID '' @ str_int cid @ py '' not found''))"
  by (simp add: generate_serial_number_def)

text \<open>What the generator returns when the course is there.\<close>

lemma generate_course:
  assumes "find (\<lambda>c. id_Course c = cid) (courses db) = Some course"
  shows "\<exists>bytes.
    encode (join4 (str_int sid) (str_int cid) (str_int (now_year rt))
      (format_04d ((case max_sequential db cid (now_year rt) of None \<Rightarrow> 0 | Some m \<Rightarrow> m) + 1)))
      = Inr bytes \<and>
    generate_serial_number rt db sid cid =
      Inr (join4 (str_int (now_year rt)) (upper rt (course_code course))
             (format_04d ((case max_sequential db cid (now_year rt) of None \<Rightarrow> 0 | Some m \<Rightarrow> m) + 1))
             (upper rt (take 6 (hexdigest bytes))),
           (case max_sequential db cid (now_year rt) of None \<Rightarrow> 0 | Some m \<Rightarrow> m) + 1,
           upper rt (take 6 (hexdigest bytes)))"
proof -
  let ?n = "(case max_sequential db cid (now_year rt) of None \<Rightarrow> 0 | Some m \<Rightarrow> m) + 1"
  obtain bytes where
    "encode (join4 (str_int sid) (str_int cid) (str_int (now_year rt)) (format_04d ?n))
       = Inr bytes"
    using encode_join4_ok [OF str_int_encode_ok str_int_encode_ok str_int_encode_ok
        format_04d_encode_ok] by blast
  with assms show ?thesis
    by (simp add: generate_serial_number_def Let_def)
qed


lemma validate_19:
  "validate_serial_number
     [y1, y2, y3, y4, h1, c1, c2, h2, n1, n2, n3, n4, h3, v1, v2, v3, v4, v5, v6] \<longleftrightarrow>
   re_digit y1 \<and> re_digit y2 \<and> re_digit y3 \<and> re_digit y4 \<and> h1 = 45 \<and>
   re_A_Z c1 \<and> re_A_Z c2 \<and> h2 = 45 \<and>
   re_digit n1 \<and> re_digit n2 \<and> re_digit n3 \<and> re_digit n4 \<and> h3 = 45 \<and>
   re_A_F0_9 v1 \<and> re_A_F0_9 v2 \<and> re_A_F0_9 v3 \<and> re_A_F0_9 v4 \<and> re_A_F0_9 v5 \<and> re_A_F0_9 v6"
  by (simp add: validate_serial_number_def pattern_unfold re_hyphen_def)




text \<open>The generator's result in closed form, with the checksum as the spec defines it.\<close>

lemma generate_result:
  assumes "find (\<lambda>c. id_Course c = cid) (courses db) = Some course"
    and "n = (case max_sequential db cid (now_year rt) of None \<Rightarrow> 0 | Some m \<Rightarrow> m) + 1"
  shows "generate_serial_number rt db sid cid =
      Inr (str_int (now_year rt) @ 45 # upper rt (course_code course) @ 45 # format_04d n @ 45 #
             spec_checksum sid cid (now_year rt) (format_04d n),
           n, spec_checksum sid cid (now_year rt) (format_04d n))"
proof -
  let ?i = "join4 (str_int sid) (str_int cid) (str_int (now_year rt)) (format_04d n)"
  have a: "list_all (\<lambda>c. c < 128) ?i"
    using str_int_ascii [of sid] str_int_ascii [of cid] str_int_ascii [of "now_year rt"]
      format_04d_ascii [of n]
    by (simp add: join4_eq)
  have e: "encode ?i = Inr (map of_nat ?i)"
    by (rule encode_ascii [OF a])
  have s: "set (take 6 (hexdigest (map of_nat ?i))) \<subseteq> {48..57} \<union> {97..102}"
    using hexdigest_chars(2) [of "map of_nat ?i"] set_take_subset [of 6 "hexdigest (map of_nat ?i)"]
    by blast
  then have "list_all (\<lambda>c. c < 128) (take 6 (hexdigest (map of_nat ?i)))"
    by (auto simp: list_all_iff)
  then have u: "upper rt (take 6 (hexdigest (map of_nat ?i))) =
      spec_checksum sid cid (now_year rt) (format_04d n)"
    by (simp add: upper_ascii spec_checksum_def join4_def ascii_upper_def)
  from generate_course [OF assms(1), of sid rt] e u assms(2) show ?thesis
    by (simp add: join4_eq)
qed

lemma spec_checksum_chars:
  "length (spec_checksum sid cid year padded) = 6"
  "list_all re_A_F0_9 (spec_checksum sid cid year padded)"
proof -
  let ?m = "map of_nat (str_int sid @ py ''-'' @ str_int cid @ py ''-'' @ str_int year @ py ''-'' @ padded)
              :: byte list"
  have s: "set (take 6 (hexdigest ?m)) \<subseteq> {48..57} \<union> {97..102}"
    using hexdigest_chars(2) [of ?m] set_take_subset [of 6 "hexdigest ?m"] by blast
  show "length (spec_checksum sid cid year padded) = 6"
    by (simp add: spec_checksum_def hexdigest_chars(1))
  show "list_all re_A_F0_9 (spec_checksum sid cid year padded)"
    unfolding spec_checksum_def using s
    by (auto simp: list_all_iff re_A_F0_9_def ascii_upper_def)
qed

lemma generate_cases:
  assumes "generate_serial_number rt db sid cid = Inr (serial, seq, h)"
  obtains course where
    "find (\<lambda>c. id_Course c = cid) (courses db) = Some course"
    "seq = (case max_sequential db cid (now_year rt) of None \<Rightarrow> 0 | Some m \<Rightarrow> m) + 1"
    "h = spec_checksum sid cid (now_year rt) (format_04d seq)"
    "serial = str_int (now_year rt) @ 45 # upper rt (course_code course) @ 45 # format_04d seq
                @ 45 # h"
proof (cases "find (\<lambda>c. id_Course c = cid) (courses db)")
  case None
  with assms show ?thesis by (simp add: generate_no_course)
next
  case (Some course)
  from generate_result [OF Some refl, of rt sid] assms that [OF Some] show ?thesis
    by simp
qed

lemma length_4:
  assumes "length (s :: nat list) = 4"
  obtains a b c d where "s = [a, b, c, d]"
  using assms by (auto simp: eval_nat_numeral length_Suc_conv)

lemma length_2:
  assumes "length (s :: nat list) = 2"
  obtains a b where "s = [a, b]"
  using assms by (auto simp: eval_nat_numeral length_Suc_conv)

lemma length_6:
  assumes "length (s :: nat list) = 6"
  obtains a b c d e f where "s = [a, b, c, d, e, f]"
  using assms by (auto simp: eval_nat_numeral length_Suc_conv)

lemma digit_range: "c \<in> {48..57} \<Longrightarrow> re_digit c"
  by (simp add: re_digit_ascii)

text \<open>A string assembled from four segments of the right shapes is accepted, and splits back.\<close>

lemma validate_build:
  assumes "length y = 4" "set y \<subseteq> {48..57}" "length c = 2" "list_all re_A_Z c"
    "length n = 4" "set n \<subseteq> {48..57}" "length h = 6" "list_all re_A_F0_9 h"
  shows "validate_serial_number (y @ 45 # c @ 45 # n @ 45 # h)"
    and "split 45 (y @ 45 # c @ 45 # n @ 45 # h) = [y, c, n, h]"
proof -
  obtain y1 y2 y3 y4 where y: "y = [y1, y2, y3, y4]" using assms(1) by (rule length_4)
  obtain c1 c2 where c: "c = [c1, c2]" using assms(3) by (rule length_2)
  obtain n1 n2 n3 n4 where n: "n = [n1, n2, n3, n4]" using assms(5) by (rule length_4)
  obtain v1 v2 v3 v4 v5 v6 where h: "h = [v1, v2, v3, v4, v5, v6]" using assms(7) by (rule length_6)
  have d: "re_digit y1" "re_digit y2" "re_digit y3" "re_digit y4"
    "re_digit n1" "re_digit n2" "re_digit n3" "re_digit n4"
    using assms(2,6) unfolding y n by (simp_all add: digit_range)
  show v: "validate_serial_number (y @ 45 # c @ 45 # n @ 45 # h)"
    using assms(4,8) d unfolding y c n h by (simp add: validate_19)
  have a: "45 \<notin> set y" "45 \<notin> set n"
    using assms(2,6) by auto
  have b: "45 \<notin> set c" "45 \<notin> set h"
    using assms(4,8) re_A_Z_not_hyphen re_A_F0_9_not_hyphen by (auto simp: list_all_iff)
  show "split 45 (y @ 45 # c @ 45 # n @ 45 # h) = [y, c, n, h]"
    by (simp only: split_append [OF a(1)] split_append [OF b(1)] split_append [OF a(2)]
          split_no_sep [OF b(2)])
qed

lemma upper_letters:
  assumes "length code = 2" "list_all ascii_letter code"
  shows "length (upper rt code) = 2" "list_all re_A_Z (upper rt code)"
proof -
  have a: "list_all (\<lambda>c. c < 128) code"
    using assms(2) by (auto simp: list_all_iff ascii_letter_def)
  show "length (upper rt code) = 2"
    by (simp add: upper_ascii [OF a] assms(1))
  show "list_all re_A_Z (upper rt code)"
    using assms(2) by (auto simp: upper_ascii [OF a] list_all_iff ascii_letter_def re_A_Z_def)
qed

text \<open>Inside the four-digit range the generated serial has the validated shape.\<close>

lemma generate_valid:
  assumes "1000 \<le> now_year rt" "now_year rt \<le> 9999"
    and "find (\<lambda>c. id_Course c = cid) (courses db) = Some course"
    and "length (course_code course) = 2" "list_all ascii_letter (course_code course)"
    and "generate_serial_number rt db sid cid = Inr (serial, seq, h)"
    and "0 \<le> seq" "seq \<le> 9999"
  shows "validate_serial_number serial"
    and "split 45 serial = [str_int (now_year rt), upper rt (course_code course), format_04d seq, h]"
proof -
  from assms(6) obtain course' where
    c': "find (\<lambda>c. id_Course c = cid) (courses db) = Some course'"
    and h: "h = spec_checksum sid cid (now_year rt) (format_04d seq)"
    and s: "serial = str_int (now_year rt) @ 45 # upper rt (course_code course') @ 45 #
              format_04d seq @ 45 # h"
    by (rule generate_cases)
  from c' assms(3) have [simp]: "course' = course" by simp
  note b = validate_build [OF str_int_4 [OF assms(1,2)] upper_letters [OF assms(4,5)]
      format_04d_4 [OF assms(7,8)], of h rt]
  have hc: "length h = 6" "list_all re_A_F0_9 h"
    unfolding h by (rule spec_checksum_chars)+
  show "validate_serial_number serial"
    unfolding s using b(1) [OF hc] by simp
  show "split 45 serial = [str_int (now_year rt), upper rt (course_code course), format_04d seq, h]"
    unfolding s using b(2) [OF hc] by simp
qed

lemma recompute_checksum:
  assumes "list_all (\<lambda>c. c < 128) p"
    and "encode (join4 (str_int a) (str_int b) (str_int y) p) = Inr bytes"
  shows "upper rt (take 6 (hexdigest bytes)) = spec_checksum a b y p"
proof -
  let ?i = "join4 (str_int a) (str_int b) (str_int y) p"
  have "list_all (\<lambda>c. c < 128) ?i"
    using str_int_ascii [of a] str_int_ascii [of b] str_int_ascii [of y] assms(1)
    by (simp add: join4_eq)
  from encode_ascii [OF this] assms(2) have b: "bytes = map of_nat ?i" by simp
  have "set (take 6 (hexdigest bytes)) \<subseteq> {48..57} \<union> {97..102}"
    using hexdigest_chars(2) [of bytes] set_take_subset [of 6 "hexdigest bytes"] by blast
  then have "list_all (\<lambda>c. c < 128) (take 6 (hexdigest bytes))"
    by (auto simp: list_all_iff)
  then show ?thesis
    by (simp add: upper_ascii spec_checksum_def b join4_def ascii_upper_def)
qed

lemma find_append_new:
  "\<forall>c \<in> set xs. \<not> P c \<Longrightarrow> P x \<Longrightarrow> find P (xs @ [x]) = Some x"
  by (induction xs) auto

lemma insert_lookup:
  assumes "insert_certificate db row = Inr db'"
  shows "find (\<lambda>c. serial_number c = serial_number row) (certificates db') = Some row"
    and "certificates db' = certificates db @ [row]"
proof -
  from assms have n: "serial_number row \<notin> set (map serial_number (certificates db))"
    and d: "db' = db\<lparr>certificates := certificates db @ [row]\<rparr>"
    by (auto simp: insert_certificate_def split: if_splits)
  from d show "certificates db' = certificates db @ [row]" by simp
  from n have "\<forall>c \<in> set (certificates db). \<not> serial_number c = serial_number row"
    by (auto simp: image_iff)
  then show "find (\<lambda>c. serial_number c = serial_number row) (certificates db') = Some row"
    unfolding d by (simp add: find_append_new)
qed

lemma sql_max_eq: "sql_max xs = (if xs = [] then None else Some (Max (set xs)))"
  by (cases xs) (simp_all add: Max.set_eq_fold [symmetric])

lemma max_sequential_eq:
  "max_sequential db cid year =
     (if partition_sequences db cid year = {} then None
      else Some (Max (partition_sequences db cid year)))"
proof -
  have "set (map sequential_part
          (filter (\<lambda>c. course_id c = cid \<and> issue_year c = year) (certificates db)))
        = partition_sequences db cid year"
    by (auto simp: partition_sequences_def)
  then show ?thesis
    unfolding max_sequential_def sql_max_eq
    by (metis (no_types, lifting) set_empty)
qed

lemma generate_sequence:
  "generate_serial_number rt db sid cid = Inr (serial, seq, h) \<Longrightarrow>
   seq = spec_sequence db cid (now_year rt)"
  by (erule generate_cases) (simp add: max_sequential_eq spec_sequence_def)

lemma partition_finite: "finite (partition_sequences db cid year)"
  by (simp add: partition_sequences_def)

lemma spec_sequence_above: "x \<in> partition_sequences db cid year \<Longrightarrow> x < spec_sequence db cid year"
  using Max_ge [OF partition_finite, of x db cid year]
  by (auto simp: spec_sequence_def)

lemma issue_step:
  assumes "issue rt db sid cid = Inr (db', seq)"
  shows "seq = spec_sequence db cid (now_year rt)"
    and "spec_sequence db' cid (now_year rt) = seq + 1"
proof -
  from assms obtain serial h where
    g: "generate_serial_number rt db sid cid = Inr (serial, seq, h)"
    and i: "insert_certificate db
              \<lparr>id_Certificate = int (length (certificates db)) + 1, student_id = sid,
               course_id = cid, serial_number = serial, sequential_part = seq,
               hash_part = h, issue_date = None, issue_year = now_year rt,
               status = Some (py ''active'')\<rparr> = Inr db'"
    by (auto simp: issue_def split: sum.splits)
  show s: "seq = spec_sequence db cid (now_year rt)"
    using g by (rule generate_sequence)
  let ?row = "\<lparr>id_Certificate = int (length (certificates db)) + 1, student_id = sid,
               course_id = cid, serial_number = serial, sequential_part = seq,
               hash_part = h, issue_date = None, issue_year = now_year rt,
               status = Some (py ''active'')\<rparr>"
  have "{c \<in> set (certificates db'). course_id c = cid \<and> issue_year c = now_year rt}
          = insert ?row {c \<in> set (certificates db). course_id c = cid \<and> issue_year c = now_year rt}"
    unfolding insert_lookup(2) [OF i] by auto
  then have p: "partition_sequences db' cid (now_year rt)
             = insert seq (partition_sequences db cid (now_year rt))"
    unfolding partition_sequences_def by simp
  have "Max (insert seq (partition_sequences db cid (now_year rt))) = seq"
  proof (rule Max_eqI)
    show "finite (insert seq (partition_sequences db cid (now_year rt)))"
      by (simp add: partition_finite)
    show "seq \<in> insert seq (partition_sequences db cid (now_year rt))"
      by simp
    fix y assume "y \<in> insert seq (partition_sequences db cid (now_year rt))"
    then show "y \<le> seq"
      using spec_sequence_above [of y db cid "now_year rt"] s by auto
  qed
  then show "spec_sequence db' cid (now_year rt) = seq + 1"
    by (simp add: spec_sequence_def p)
qed

lemma issue_all_sequences:
  "issue_all rt db cid sids = Inr (db', seqs) \<Longrightarrow>
   seqs = map (\<lambda>i. spec_sequence db cid (now_year rt) + int i) [0..<length sids]"
proof (induction sids arbitrary: db db' seqs)
  case Nil
  then show ?case by simp
next
  case (Cons sid sids)
  from Cons.prems obtain db1 seq seqs' where
    i: "issue rt db sid cid = Inr (db1, seq)"
    and r: "issue_all rt db1 cid sids = Inr (db', seqs')"
    and s: "seqs = seq # seqs'"
    by (auto split: sum.splits)
  note st = issue_step [OF i]
  from Cons.IH [OF r] st
  have "seqs' = map (\<lambda>i. spec_sequence db cid (now_year rt) + int (Suc i)) [0..<length sids]"
    by simp
  with s st(1) show ?case
    by (simp add: map_upt_Suc del: upt_Suc)
qed

text \<open>A serial just generated and stored on an active row verifies.\<close>

lemma verify_generated:
  assumes "1000 \<le> now_year rt" "now_year rt \<le> 9999"
    and "find (\<lambda>c. id_Course c = cid) (courses db) = Some course"
    and "length (course_code course) = 2" "list_all ascii_letter (course_code course)"
    and "generate_serial_number rt db sid cid = Inr (serial, seq, h)"
    and "0 \<le> seq" "seq \<le> 9999"
    and "insert_certificate db row = Inr db'"
    and "serial_number row = serial" "student_id row = sid" "course_id row = cid"
      "status row = Some (py ''active'')"
  shows "verify_certificate_authenticity rt db' serial =
     Inr \<lparr>is_valid = True, reason = py ''Certificate is authentic and valid'',
          certificate = Some row\<rparr>"
proof -
  note v = generate_valid [OF assms(1-8)]
  from assms(6) have h: "h = spec_checksum sid cid (now_year rt) (format_04d seq)"
    by (rule generate_cases)
  have f: "find (\<lambda>c. serial_number c = serial) (certificates db') = Some row"
    using insert_lookup(1) [OF assms(9)] assms(10) by simp
  obtain bytes where e:
    "encode (join4 (str_int (student_id row)) (str_int (course_id row))
       (str_int (now_year rt)) (format_04d seq)) = Inr bytes"
    using encode_join4_ok [OF str_int_encode_ok str_int_encode_ok str_int_encode_ok
        format_04d_encode_ok] by blast
  have "upper rt (take 6 (hexdigest bytes)) = h"
    using recompute_checksum [OF format_04d_ascii e] assms(11,12) h by simp
  with verify_active [OF v(1) f assms(13) v(2) e, of rt] show ?thesis
    by simp
qed

lemma verify_valid_cases:
  assumes "verify_certificate_authenticity rt db s = Inr r" "is_valid r"
  obtains c year code seq h bytes where
    "validate_serial_number s"
    "find (\<lambda>c. serial_number c = s) (certificates db) = Some c"
    "status c = Some (py ''active'')"
    "split 45 s = [year, code, seq, h]"
    "encode (join4 (str_int (student_id c)) (str_int (course_id c)) year seq) = Inr bytes"
    "h = upper rt (take 6 (hexdigest bytes))"
    "certificate r = Some c"
proof -
  have v: "validate_serial_number s"
    using assms by (cases "validate_serial_number s") (auto simp: verify_not_valid)
  obtain c where c: "find (\<lambda>c. serial_number c = s) (certificates db) = Some c"
    using assms v
    by (cases "find (\<lambda>c. serial_number c = s) (certificates db)") (auto simp: verify_not_found)
  have a: "status c = Some (py ''active'')"
    using assms v c by (cases "status c = Some (py ''active'')") (auto simp: verify_not_active)
  from v obtain year code seq h where sp: "split 45 s = [year, code, seq, h]"
    by (rule validate_parts)
  from verify_hash_step [OF v, of "student_id c" "course_id c"] sp
  obtain bytes where e:
    "encode (join4 (str_int (student_id c)) (str_int (course_id c)) year seq) = Inr bytes"
    by auto
  from verify_active [OF v c a sp e, of rt] assms
  have "h = upper rt (take 6 (hexdigest bytes))" "certificate r = Some c"
    by (auto split: if_splits)
  with v c a sp e show ?thesis by (rule that)
qed

lemma validate_split:
  assumes "validate_serial_number s"
  shows "split 45 s = [take 4 s, take 2 (drop 5 s), take 4 (drop 8 s), drop 13 s]"
    and "19 \<le> length s"
proof -
  from assms obtain y c n h where p: "s = y @ 45 # c @ 45 # n @ 45 # h"
    "split 45 s = [y, c, n, h]" "length y = 4" "length c = 2" "length n = 4" "6 \<le> length h"
    by (rule validate_parts)
  from p(1,3-5) have "take 4 s = y" "take 2 (drop 5 s) = c" "take 4 (drop 8 s) = n" "drop 13 s = h"
    by simp_all
  with p(2) show "split 45 s = [take 4 s, take 2 (drop 5 s), take 4 (drop 8 s), drop 13 s]"
    by simp
  from p(1,3-6) show "19 \<le> length s" by simp
qed

text \<open>A change inside the checksum segment leaves year and sequence and changes the checksum.\<close>

lemma checksum_change:
  assumes "13 \<le> i" "i < 19" "19 \<le> length s" "x \<noteq> s ! i"
  shows "take 4 (s[i := x]) = take 4 s"
    and "take 4 (drop 8 (s[i := x])) = take 4 (drop 8 s)"
    and "drop 13 (s[i := x]) \<noteq> drop 13 s"
proof -
  show "take 4 (s[i := x]) = take 4 s"
    using assms(1) by simp
  show "take 4 (drop 8 (s[i := x])) = take 4 (drop 8 s)"
    using assms(1) by (simp add: drop_update_swap)
  have "drop 13 (s[i := x]) ! (i - 13) = x"
    using assms(1-3) by (simp add: drop_update_swap)
  moreover have "drop 13 s ! (i - 13) = s ! i"
    using assms(1-3) by simp
  ultimately show "drop 13 (s[i := x]) \<noteq> drop 13 s"
    using assms(4) by metis
qed

section \<open>The functions on the example stores\<close>

text \<open>Three digests, computed once.\<close>

lemma digest_0001:
  "take 6 (hexdigest (map of_char ''1-1-2024-0001'')) = map of_char ''473895''"
  by code_simp

lemma digest_10000:
  "take 6 (hexdigest (map of_char ''1-1-2024-10000'')) = map of_char ''0360aa''"
  by code_simp

lemma digest_0002:
  "take 6 (hexdigest (map of_char ''2-1-2024-0002'')) = map of_char ''86daa1''"
  by code_simp

lemma spec_checksum_0001: "spec_checksum 1 1 2024 (py ''0001'') = py ''473895''"
proof -
  have i: "str_int 1 @ py ''-'' @ str_int 1 @ py ''-'' @ str_int 2024 @ py ''-'' @ py ''0001''
             = py ''1-1-2024-0001''"
    by (simp add: str_int_def digits.simps py_def)
  have b: "map of_nat (py ''1-1-2024-0001'') = (map of_char ''1-1-2024-0001'' :: byte list)"
    by (simp add: py_def)
  have u: "map ascii_upper (map of_char ''473895'') = py ''473895''"
    by (simp add: py_def ascii_upper_def)
  show ?thesis
    unfolding spec_checksum_def i b digest_0001 u by (rule refl)
qed

lemma replicate_small: "replicate 1 x = [x]" "replicate 2 x = [x, x]" "replicate 3 x = [x, x, x]"
  by (simp_all add: eval_nat_numeral)

lemma format_04d_1: "format_04d 1 = py ''0001''"
  by (simp add: format_04d_def zfill_def digits.simps py_def replicate_small)

lemma year_2024: "str_int 2024 = py ''2024''"
  by (simp add: str_int_def digits.simps py_def)

lemma upper_wd: "upper rt (py ''wd'') = py ''WD''"
  by (simp add: upper_def upper_cp_def py_def)

lemma generate_first:
  "generate_serial_number rt2024 db_empty 1 1 = Inr (py ''2024-WD-0001-473895'', 1, py ''473895'')"
proof -
  have f: "find (\<lambda>c. id_Course c = 1) (courses db_empty) = Some web_course"
    by (simp add: db_empty_def web_course_def)
  have n: "1 = (case max_sequential db_empty 1 (now_year rt2024) of None \<Rightarrow> 0 | Some m \<Rightarrow> m) + 1"
    by (simp add: max_sequential_def db_empty_def)
  have y: "now_year rt2024 = 2024" "course_code web_course = py ''wd''"
    by (simp_all add: rt2024_def web_course_def)
  show ?thesis
    unfolding generate_result [OF f n] y format_04d_1 year_2024 upper_wd spec_checksum_0001
    by (simp add: py_def)
qed

lemma spec_checksum_10000: "spec_checksum 1 1 2024 (py ''10000'') = py ''0360AA''"
proof -
  have i: "str_int 1 @ py ''-'' @ str_int 1 @ py ''-'' @ str_int 2024 @ py ''-'' @ py ''10000''
             = py ''1-1-2024-10000''"
    by (simp add: str_int_def digits.simps py_def)
  have b: "map of_nat (py ''1-1-2024-10000'') = (map of_char ''1-1-2024-10000'' :: byte list)"
    by (simp add: py_def)
  have u: "map ascii_upper (map of_char ''0360aa'') = py ''0360AA''"
    by (simp add: py_def ascii_upper_def)
  show ?thesis
    unfolding spec_checksum_def i b digest_10000 u by (rule refl)
qed

lemma spec_checksum_0002: "spec_checksum 2 1 2024 (py ''0002'') = py ''86DAA1''"
proof -
  have i: "str_int 2 @ py ''-'' @ str_int 1 @ py ''-'' @ str_int 2024 @ py ''-'' @ py ''0002''
             = py ''2-1-2024-0002''"
    by (simp add: str_int_def digits.simps py_def)
  have b: "map of_nat (py ''2-1-2024-0002'') = (map of_char ''2-1-2024-0002'' :: byte list)"
    by (simp add: py_def)
  have u: "map ascii_upper (map of_char ''86daa1'') = py ''86DAA1''"
    by (simp add: py_def ascii_upper_def)
  show ?thesis
    unfolding spec_checksum_def i b digest_0002 u by (rule refl)
qed

lemma format_04d_2: "format_04d 2 = py ''0002''"
  by (simp add: format_04d_def zfill_def digits.simps py_def replicate_small)

lemma format_04d_10000: "format_04d 10000 = py ''10000''"
  by (simp add: format_04d_def zfill_def digits.simps py_def)

lemma generate_overflow:
  "generate_serial_number rt2024 db9999 1 1 =
     Inr (py ''2024-WD-10000-0360AA'', 10000, py ''0360AA'')"
proof -
  have f: "find (\<lambda>c. id_Course c = 1) (courses db9999) = Some web_course"
    by (simp add: db9999_def web_course_def)
  have n: "10000 = (case max_sequential db9999 1 (now_year rt2024) of None \<Rightarrow> 0 | Some m \<Rightarrow> m) + 1"
    by (simp add: max_sequential_def db9999_def cert9999_def rt2024_def)
  have y: "now_year rt2024 = 2024" "course_code web_course = py ''wd''"
    by (simp_all add: rt2024_def web_course_def)
  show ?thesis
    unfolding generate_result [OF f n] y format_04d_10000 year_2024 upper_wd spec_checksum_10000
    by (simp add: py_def)
qed

lemma generate_w1:
  "generate_serial_number rt2024 db_w1 1 1 = Inr (py ''2024-W1-0001-473895'', 1, py ''473895'')"
proof -
  have f: "find (\<lambda>c. id_Course c = 1) (courses db_w1)
             = Some (web_course\<lparr>course_code := py ''w1''\<rparr>)"
    by (simp add: db_w1_def web_course_def)
  have n: "1 = (case max_sequential db_w1 1 (now_year rt2024) of None \<Rightarrow> 0 | Some m \<Rightarrow> m) + 1"
    by (simp add: max_sequential_def db_w1_def)
  have y: "now_year rt2024 = 2024" "course_code (web_course\<lparr>course_code := py ''w1''\<rparr>) = py ''w1''"
    by (simp_all add: rt2024_def)
  have u: "upper rt2024 (py ''w1'') = py ''W1''"
    by (simp add: upper_def upper_cp_def py_def)
  show ?thesis
    unfolding generate_result [OF f n] y format_04d_1 year_2024 u spec_checksum_0001
    by (simp add: py_def)
qed

lemma generate_second:
  "generate_serial_number rt2024 db1 2 1 = Inr (py ''2024-WD-0002-86DAA1'', 2, py ''86DAA1'')"
proof -
  have f: "find (\<lambda>c. id_Course c = 1) (courses db1) = Some web_course"
    by (simp add: db1_def web_course_def)
  have n: "2 = (case max_sequential db1 1 (now_year rt2024) of None \<Rightarrow> 0 | Some m \<Rightarrow> m) + 1"
    by (simp add: max_sequential_def db1_def cert1_def rt2024_def)
  have y: "now_year rt2024 = 2024" "course_code web_course = py ''wd''"
    by (simp_all add: rt2024_def web_course_def)
  show ?thesis
    unfolding generate_result [OF f n] y format_04d_2 year_2024 upper_wd spec_checksum_0002
    by (simp add: py_def)
qed

lemma issue_first: "issue rt2024 db_empty 1 1 = Inr (db1, 1)"
  by (simp add: issue_def generate_first insert_certificate_def)
     (simp add: db_empty_def db1_def cert1_def rt2024_def)

lemma issue_second: "issue rt2024 db1 2 1 = Inr (db2, 2)"
  by (simp add: issue_def generate_second insert_certificate_def)
     (simp add: db1_def db2_def cert1_def cert2_def rt2024_def py_def)

lemma issue_all_two: "issue_all rt2024 db_empty 1 [1, 2] = Inr (db2, [1, 2])"
  by (simp add: issue_first issue_second)

lemma verify_first:
  "verify_certificate_authenticity rt2024 db1 (py ''2024-WD-0001-473895'') =
     Inr \<lparr>is_valid = True, reason = py ''Certificate is authentic and valid'',
          certificate = Some cert1\<rparr>"
proof -
  have y: "1000 \<le> now_year rt2024" "now_year rt2024 \<le> 9999"
    by (simp_all add: rt2024_def)
  have f: "find (\<lambda>c. id_Course c = 1) (courses db_empty) = Some web_course"
    by (simp add: db_empty_def web_course_def)
  have c: "length (course_code web_course) = 2" "list_all ascii_letter (course_code web_course)"
    by (simp_all add: web_course_def py_def ascii_letter_def)
  have s: "(0::int) \<le> 1" "(1::int) \<le> 9999"
    by simp_all
  have i: "insert_certificate db_empty cert1 = Inr db1"
    by (simp add: insert_certificate_def db_empty_def db1_def)
  have r: "serial_number cert1 = py ''2024-WD-0001-473895''" "student_id cert1 = 1"
    "course_id cert1 = 1" "status cert1 = Some (py ''active'')"
    by (simp_all add: cert1_def)
  show ?thesis
    by (rule verify_generated [OF y f c generate_first s i r])
qed


section \<open>The claims\<close>

text \<open>
  C1 (amended). Verification symmetry: when the current year has four digits, the stored
  course code is two Latin letters and the allocated sequence is between 0 and 9999, then
  after \<open>generate_serial_number\<close> has returned \<open>(serial, sequence, checksum)\<close> and the store
  has accepted an active Certificate row with that serial, student and course,
  \<open>verify_certificate_authenticity\<close> on the serial returns \<open>is_valid = True\<close> with that row.
\<close>

theorem verification_symmetry:
  assumes "1000 \<le> now_year rt" "now_year rt \<le> 9999"
    and "find (\<lambda>c. id_Course c = cid) (courses db) = Some course"
    and "length (course_code course) = 2" "list_all ascii_letter (course_code course)"
    and "generate_serial_number rt db sid cid = Inr (serial, seq, h)"
    and "0 \<le> seq" "seq \<le> 9999"
    and "insert_certificate db row = Inr db'"
    and "serial_number row = serial" "student_id row = sid" "course_id row = cid"
      "status row = Some (py ''active'')"
  shows "verify_certificate_authenticity rt db' serial =
     Inr \<lparr>is_valid = True, reason = py ''Certificate is authentic and valid'',
          certificate = Some row\<rparr>"
  using assms by (rule verify_generated)

theorem verification_symmetry_witness:
  "generate_serial_number rt2024 db_empty 1 1 = Inr (py ''2024-WD-0001-473895'', 1, py ''473895'') \<and>
   insert_certificate db_empty cert1 = Inr db1 \<and>
   verify_certificate_authenticity rt2024 db1 (py ''2024-WD-0001-473895'') =
     Inr \<lparr>is_valid = True, reason = py ''Certificate is authentic and valid'',
          certificate = Some cert1\<rparr>"
proof -
  have y: "1000 \<le> now_year rt2024" "now_year rt2024 \<le> 9999"
    by (simp_all add: rt2024_def)
  have f: "find (\<lambda>c. id_Course c = 1) (courses db_empty) = Some web_course"
    by (simp add: db_empty_def web_course_def)
  have c: "length (course_code web_course) = 2" "list_all ascii_letter (course_code web_course)"
    by (simp_all add: web_course_def py_def ascii_letter_def)
  have s: "(0::int) \<le> 1" "(1::int) \<le> 9999"
    by simp_all
  have i: "insert_certificate db_empty cert1 = Inr db1"
    by (simp add: insert_certificate_def db_empty_def db1_def)
  have r: "serial_number cert1 = py ''2024-WD-0001-473895''" "student_id cert1 = 1"
    "course_id cert1 = 1" "status cert1 = Some (py ''active'')"
    by (simp_all add: cert1_def)
  show ?thesis
    using verification_symmetry [OF y f c generate_first s i r] generate_first i by simp
qed

text \<open>
  The claim as stated fails: after sequence 9999 the generator returns a serial with a
  five-digit sequence; the store accepts the active row, and verification of the serial just
  issued answers "Invalid serial number format".
\<close>

theorem verification_symmetry_counterexample:
  "generate_serial_number rt2024 db9999 1 1 =
     Inr (py ''2024-WD-10000-0360AA'', 10000, py ''0360AA'') \<and>
   insert_certificate db9999 cert10000 = Inr db10000 \<and>
   serial_number cert10000 = py ''2024-WD-10000-0360AA'' \<and> student_id cert10000 = 1 \<and>
   course_id cert10000 = 1 \<and> status cert10000 = Some (py ''active'') \<and>
   verify_certificate_authenticity rt2024 db10000 (py ''2024-WD-10000-0360AA'') =
     Inr \<lparr>is_valid = False, reason = py ''Invalid serial number format'', certificate = None\<rparr>"
proof -
  have i: "insert_certificate db9999 cert10000 = Inr db10000"
    by (simp add: insert_certificate_def db9999_def db10000_def cert9999_def cert10000_def py_def)
  have r: "serial_number cert10000 = py ''2024-WD-10000-0360AA''" "student_id cert10000 = 1"
    "course_id cert10000 = 1" "status cert10000 = Some (py ''active'')"
    by (simp_all add: cert10000_def)
  have "\<not> validate_serial_number (py ''2024-WD-10000-0360AA'')"
    by (simp add: validate_eval)
  then have "verify_certificate_authenticity rt2024 db10000 (py ''2024-WD-10000-0360AA'') =
     Inr \<lparr>is_valid = False, reason = py ''Invalid serial number format'', certificate = None\<rparr>"
    by (rule verify_not_valid)
  with generate_overflow i r show ?thesis by simp
qed

text \<open>
  C2 (amended). Tamper detection: take a serial that verifies as valid against a stored
  certificate, and change one character of its 6-character checksum segment so that the
  string is still well-formed. If no stored certificate carries the altered serial,
  verification of it returns \<open>is_valid = False\<close> with the reason "Certificate not found in
  database" and no certificate. The reason is "Hash verification failed - certificate may be
  forged" when the altered serial is, in some store, the serial of an active certificate of
  the same student and course.
\<close>

theorem tamper_detection:
  assumes "verify_certificate_authenticity rt db s = Inr r" "is_valid r" "certificate r = Some c"
    and "13 \<le> i" "i < 19" "x \<noteq> s ! i" "validate_serial_number (s[i := x])"
  shows "(find (\<lambda>c. serial_number c = s[i := x]) (certificates db) = None \<longrightarrow>
      verify_certificate_authenticity rt db (s[i := x]) =
        Inr \<lparr>is_valid = False, reason = py ''Certificate not found in database'',
             certificate = None\<rparr>) \<and>
    (find (\<lambda>c. serial_number c = s[i := x]) (certificates db') = Some c' \<and>
     status c' = Some (py ''active'') \<and>
     student_id c' = student_id c \<and> course_id c' = course_id c \<longrightarrow>
      verify_certificate_authenticity rt db' (s[i := x]) =
        Inr \<lparr>is_valid = False,
             reason = py ''Hash verification failed - certificate may be forged'',
             certificate = Some c'\<rparr>)"
proof (intro conjI impI)
  assume "find (\<lambda>c. serial_number c = s[i := x]) (certificates db) = None"
  with assms(7) show "verify_certificate_authenticity rt db (s[i := x]) =
        Inr \<lparr>is_valid = False, reason = py ''Certificate not found in database'',
             certificate = None\<rparr>"
    by (rule verify_not_found)
next
  assume "find (\<lambda>c. serial_number c = s[i := x]) (certificates db') = Some c' \<and>
     status c' = Some (py ''active'') \<and>
     student_id c' = student_id c \<and> course_id c' = course_id c"
  then have f: "find (\<lambda>c. serial_number c = s[i := x]) (certificates db') = Some c'"
    and a: "status c' = Some (py ''active'')"
    and ids: "student_id c' = student_id c" "course_id c' = course_id c"
    by simp_all
  from assms(1,2) obtain c0 year code seq h bytes where
    v: "validate_serial_number s"
    and sp: "split 45 s = [year, code, seq, h]"
    and e: "encode (join4 (str_int (student_id c0)) (str_int (course_id c0)) year seq)
              = Inr bytes"
    and h: "h = upper rt (take 6 (hexdigest bytes))"
    and c0: "certificate r = Some c0"
    by (rule verify_valid_cases)
  from c0 assms(3) have [simp]: "c0 = c" by simp
  from sp validate_split(1) [OF v]
  have p: "year = take 4 s" "seq = take 4 (drop 8 s)" "h = drop 13 s"
    by simp_all
  note ch = checksum_change [OF assms(4,5) validate_split(2) [OF v] assms(6)]
  have sp': "split 45 (s[i := x]) = [year, take 2 (drop 5 (s[i := x])), seq, drop 13 (s[i := x])]"
    using validate_split(1) [OF assms(7)] ch(1,2) p by simp
  have e': "encode (join4 (str_int (student_id c')) (str_int (course_id c')) year seq)
              = Inr bytes"
    using e ids by simp
  from verify_active [OF assms(7) f a sp' e', of rt] ch(3) h p(3)
  show "verify_certificate_authenticity rt db' (s[i := x]) =
        Inr \<lparr>is_valid = False,
             reason = py ''Hash verification failed - certificate may be forged'',
             certificate = Some c'\<rparr>"
    by simp
qed

theorem tamper_detection_witness:
  "verify_certificate_authenticity rt2024 db1 (py ''2024-WD-0001-473895'') =
     Inr \<lparr>is_valid = True, reason = py ''Certificate is authentic and valid'',
          certificate = Some cert1\<rparr> \<and>
   (py ''2024-WD-0001-473895'')[18 := 54] = py ''2024-WD-0001-473896'' \<and>
   verify_certificate_authenticity rt2024 db1 (py ''2024-WD-0001-473896'') =
     Inr \<lparr>is_valid = False, reason = py ''Certificate not found in database'',
          certificate = None\<rparr> \<and>
   verify_certificate_authenticity rt2024 db_tampered (py ''2024-WD-0001-473896'') =
     Inr \<lparr>is_valid = False,
          reason = py ''Hash verification failed - certificate may be forged'',
          certificate = Some (cert1\<lparr>serial_number := py ''2024-WD-0001-473896''\<rparr>)\<rparr>"
proof -
  have u: "(py ''2024-WD-0001-473895'')[18 := 54] = py ''2024-WD-0001-473896''"
    by (simp add: py_def)
  have r: "is_valid \<lparr>is_valid = True, reason = py ''Certificate is authentic and valid'',
          certificate = Some cert1\<rparr>"
    "certificate \<lparr>is_valid = True, reason = py ''Certificate is authentic and valid'',
          certificate = Some cert1\<rparr> = Some cert1"
    by simp_all
  have i: "(13::nat) \<le> 18" "(18::nat) < 19" "54 \<noteq> py ''2024-WD-0001-473895'' ! 18"
    by (simp_all add: py_def)
  have v: "validate_serial_number ((py ''2024-WD-0001-473895'')[18 := 54])"
    unfolding u by (simp add: validate_eval)
  have n: "find (\<lambda>c. serial_number c = (py ''2024-WD-0001-473895'')[18 := 54]) (certificates db1)
             = None"
    unfolding u by (simp add: db1_def cert1_def py_def)
  have t: "find (\<lambda>c. serial_number c = (py ''2024-WD-0001-473895'')[18 := 54])
             (certificates db_tampered)
             = Some (cert1\<lparr>serial_number := py ''2024-WD-0001-473896''\<rparr>) \<and>
           status (cert1\<lparr>serial_number := py ''2024-WD-0001-473896''\<rparr>) = Some (py ''active'') \<and>
           student_id (cert1\<lparr>serial_number := py ''2024-WD-0001-473896''\<rparr>) = student_id cert1 \<and>
           course_id (cert1\<lparr>serial_number := py ''2024-WD-0001-473896''\<rparr>) = course_id cert1"
    unfolding u by (simp add: db_tampered_def cert1_def)
  from tamper_detection [OF verify_first r i v, of db_tampered
      "cert1\<lparr>serial_number := py ''2024-WD-0001-473896''\<rparr>"] n t verify_first u
  show ?thesis
    by simp
qed

text \<open>
  The claim as stated fails: the altered serial of the first certificate is looked up before
  any hash is computed, and the answer is "Certificate not found in database".
\<close>

theorem tamper_detection_counterexample:
  "verify_certificate_authenticity rt2024 db1 (py ''2024-WD-0001-473895'') =
     Inr \<lparr>is_valid = True, reason = py ''Certificate is authentic and valid'',
          certificate = Some cert1\<rparr> \<and>
   (py ''2024-WD-0001-473895'')[18 := 54] = py ''2024-WD-0001-473896'' \<and>
   validate_serial_number (py ''2024-WD-0001-473896'') \<and>
   verify_certificate_authenticity rt2024 db1 (py ''2024-WD-0001-473896'') =
     Inr \<lparr>is_valid = False, reason = py ''Certificate not found in database'',
          certificate = None\<rparr> \<and>
   py ''Certificate not found in database'' \<noteq>
     py ''Hash verification failed - certificate may be forged''"
proof -
  have u: "(py ''2024-WD-0001-473895'')[18 := 54] = py ''2024-WD-0001-473896''"
    by (simp add: py_def)
  have v: "validate_serial_number (py ''2024-WD-0001-473896'')"
    by (simp add: validate_eval)
  have n: "find (\<lambda>c. serial_number c = py ''2024-WD-0001-473896'') (certificates db1) = None"
    by (simp add: db1_def cert1_def py_def)
  have d: "py ''Certificate not found in database'' \<noteq>
     py ''Hash verification failed - certificate may be forged''"
    by (simp add: py_def)
  from verify_first u v verify_not_found [OF v n, of rt2024] d show ?thesis
    by simp
qed




text \<open>
  C4 (amended). Format closure: when the current year has four digits, the stored course
  code is two Latin letters of either case and the allocated sequence is between 0 and 9999,
  the serial that \<open>generate_serial_number\<close> returns satisfies \<open>validate_serial_number\<close>.
\<close>

theorem format_closure:
  assumes "1000 \<le> now_year rt" "now_year rt \<le> 9999"
    and "find (\<lambda>c. id_Course c = cid) (courses db) = Some course"
    and "length (course_code course) = 2" "list_all ascii_letter (course_code course)"
    and "generate_serial_number rt db sid cid = Inr (serial, seq, h)"
    and "0 \<le> seq" "seq \<le> 9999"
  shows "validate_serial_number serial"
  using assms by (rule generate_valid(1))

theorem format_closure_witness:
  "generate_serial_number rt2024 db_empty 1 1 = Inr (py ''2024-WD-0001-473895'', 1, py ''473895'') \<and>
   find (\<lambda>c. id_Course c = 1) (courses db_empty) = Some web_course \<and>
   course_code web_course = py ''wd'' \<and>
   validate_serial_number (py ''2024-WD-0001-473895'')"
proof -
  have y: "1000 \<le> now_year rt2024" "now_year rt2024 \<le> 9999"
    by (simp_all add: rt2024_def)
  have f: "find (\<lambda>c. id_Course c = 1) (courses db_empty) = Some web_course"
    by (simp add: db_empty_def web_course_def)
  have c: "length (course_code web_course) = 2" "list_all ascii_letter (course_code web_course)"
    "course_code web_course = py ''wd''"
    by (simp_all add: web_course_def py_def ascii_letter_def)
  have s: "(0::int) \<le> 1" "(1::int) \<le> 9999"
    by simp_all
  show ?thesis
    using format_closure [OF y f c(1,2) generate_first s] generate_first f c(3) by simp
qed

text \<open>
  The claim as stated fails in the cases it names: after sequence 9999 the generator returns
  a five-digit sequence, and a stored code with a digit stays in the serial; the validator
  refuses both serials.
\<close>

theorem format_closure_counterexample:
  "generate_serial_number rt2024 db9999 1 1 =
     Inr (py ''2024-WD-10000-0360AA'', 10000, py ''0360AA'') \<and>
   \<not> validate_serial_number (py ''2024-WD-10000-0360AA'') \<and>
   generate_serial_number rt2024 db_w1 1 1 = Inr (py ''2024-W1-0001-473895'', 1, py ''473895'') \<and>
   \<not> validate_serial_number (py ''2024-W1-0001-473895'')"
proof -
  have "\<not> validate_serial_number (py ''2024-WD-10000-0360AA'')"
    "\<not> validate_serial_number (py ''2024-W1-0001-473895'')"
    by (simp_all add: validate_eval)
  with generate_overflow generate_w1 show ?thesis by simp
qed

text \<open>
  C5. Sequence allocation: \<open>generate_serial_number\<close> returns as sequence the maximum
  \<open>sequential_part\<close> among the certificates of the course issued in the current year, plus 1,
  an empty partition counting as 0. Consequently, issuing and persisting N certificates one
  after the other in a partition that starts empty yields the sequence numbers 1 to N, in
  order, with no gap and no repeat.
\<close>

theorem sequence_allocation:
  "(generate_serial_number rt db sid cid = Inr (serial, seq, h) \<longrightarrow>
      seq = spec_sequence db cid (now_year rt)) \<and>
   (partition_sequences db cid (now_year rt) = {} \<and>
    issue_all rt db cid sids = Inr (db', seqs) \<longrightarrow>
      seqs = map int [1..<Suc (length sids)])"
proof (intro conjI impI)
  assume "generate_serial_number rt db sid cid = Inr (serial, seq, h)"
  then show "seq = spec_sequence db cid (now_year rt)"
    by (rule generate_sequence)
next
  assume a: "partition_sequences db cid (now_year rt) = {} \<and>
    issue_all rt db cid sids = Inr (db', seqs)"
  then have n: "spec_sequence db cid (now_year rt) = 1"
    by (simp add: spec_sequence_def)
  have "map (\<lambda>i. 1 + int i) [0..<length sids] = map int (map (\<lambda>i. i + 1) [0..<length sids])"
    by simp
  also have "\<dots> = map int [1..<Suc (length sids)]"
    by (simp only: map_add_upt) simp
  finally show "seqs = map int [1..<Suc (length sids)]"
    using issue_all_sequences [of rt db cid sids db' seqs] a n by simp
qed

theorem sequence_allocation_witness:
  "generate_serial_number rt2024 db1 2 1 = Inr (py ''2024-WD-0002-86DAA1'', 2, py ''86DAA1'') \<and>
   spec_sequence db1 1 2024 = 2 \<and>
   partition_sequences db_empty 1 2024 = {} \<and>
   issue_all rt2024 db_empty 1 [1, 2] = Inr (db2, [1, 2])"
proof -
  have e: "partition_sequences db_empty 1 (now_year rt2024) = {}"
    by (simp add: partition_sequences_def db_empty_def)
  have y: "now_year rt2024 = 2024"
    by (simp add: rt2024_def)
  from sequence_allocation [of rt2024 db1 2 1 "py ''2024-WD-0002-86DAA1''" 2 "py ''86DAA1''"]
    sequence_allocation [where rt = rt2024 and db = db_empty and cid = 1 and sids = "[1, 2]"
      and db' = db2 and seqs = "[1, 2]"]
    generate_second e issue_all_two
  show ?thesis
    by (simp add: y)
qed



text \<open>
  C7. Status gating: for a serial of valid format whose lookup returns a stored certificate
  with a status other than \<open>active\<close> (revoked, suspended, any other text, or NULL),
  verification returns \<open>is_valid = False\<close>, a reason that ends with that status, and the
  certificate itself. Nothing is assumed about the checksum: the result is the same whether it
  is right or wrong.
\<close>

theorem status_gating:
  assumes "validate_serial_number s"
    and "find (\<lambda>c. serial_number c = s) (certificates db) = Some cert"
    and "status cert \<noteq> Some (py ''active'')"
  shows "verify_certificate_authenticity rt db s =
     Inr \<lparr>is_valid = False, reason = py ''Certificate status is '' @ str_status (status cert),
          certificate = Some cert\<rparr>"
  using assms by (rule verify_not_active)

theorem status_gating_witness:
  "validate_serial_number (py ''2024-WD-0001-473895'') \<and>
   find (\<lambda>c. serial_number c = py ''2024-WD-0001-473895'') (certificates db_revoked)
     = Some (cert1\<lparr>status := Some (py ''revoked'')\<rparr>) \<and>
   verify_certificate_authenticity rt2024 db_revoked (py ''2024-WD-0001-473895'') =
     Inr \<lparr>is_valid = False, reason = py ''Certificate status is revoked'',
          certificate = Some (cert1\<lparr>status := Some (py ''revoked'')\<rparr>)\<rparr>"
proof -
  have v: "validate_serial_number (py ''2024-WD-0001-473895'')"
    by (simp add: validate_eval)
  have f: "find (\<lambda>c. serial_number c = py ''2024-WD-0001-473895'') (certificates db_revoked)
     = Some (cert1\<lparr>status := Some (py ''revoked'')\<rparr>)"
    by (simp add: db_revoked_def cert1_def)
  have s: "status (cert1\<lparr>status := Some (py ''revoked'')\<rparr>) \<noteq> Some (py ''active'')"
    by (simp add: py_def)
  show ?thesis
    using v f status_gating [OF v f s, of rt2024]
    by (simp add: str_status_def py_def)
qed

text \<open>
  C8. When no course has the given id, \<open>generate_serial_number\<close> fails with the error
  "Course with ID ... not found" (the code raises it as a \<open>ValueError\<close>; the spec files it under
  NotFoundError), and it does so whatever the certificate table holds: nothing about sequences
  is read before. When a course has the id, the call returns a result.
\<close>

theorem missing_course:
  "((\<forall>c \<in> set (courses db). id_Course c \<noteq> cid) \<longrightarrow>
      (\<forall>certs. generate_serial_number rt (db\<lparr>certificates := certs\<rparr>) sid cid =
         Inl (ValueError (py ''Course with ID '' @ str_int cid @ py '' not found'')))) \<and>
   ((\<exists>c \<in> set (courses db). id_Course c = cid) \<longrightarrow>
      (\<exists>r. generate_serial_number rt db sid cid = Inr r))"
proof (intro conjI impI allI)
  fix certs
  assume "\<forall>c \<in> set (courses db). id_Course c \<noteq> cid"
  then have "find (\<lambda>c. id_Course c = cid) (courses (db\<lparr>certificates := certs\<rparr>)) = None"
    by (simp add: find_None_iff)
  then show "generate_serial_number rt (db\<lparr>certificates := certs\<rparr>) sid cid =
         Inl (ValueError (py ''Course with ID '' @ str_int cid @ py '' not found''))"
    by (rule generate_no_course)
next
  assume "\<exists>c \<in> set (courses db). id_Course c = cid"
  then obtain course where "find (\<lambda>c. id_Course c = cid) (courses db) = Some course"
    by (cases "find (\<lambda>c. id_Course c = cid) (courses db)") (auto simp: find_None_iff)
  from generate_course [OF this] show "\<exists>r. generate_serial_number rt db sid cid = Inr r"
    by blast
qed

theorem missing_course_witness:
  "generate_serial_number rt2024 db1 1 2 = Inl (ValueError (py ''Course with ID 2 not found'')) \<and>
   (\<exists>r. generate_serial_number rt2024 db1 1 1 = Inr r)"
proof -
  have a: "\<forall>c \<in> set (courses db1). id_Course c \<noteq> 2"
    by (simp add: db1_def web_course_def)
  have b: "\<exists>c \<in> set (courses db1). id_Course c = 1"
    by (simp add: db1_def web_course_def)
  have c: "db1\<lparr>certificates := [cert1]\<rparr> = db1"
    by (simp add: db1_def)
  have d: "str_int 2 = py ''2''"
    by (simp add: str_int_def digits.simps py_def)
  from a missing_course [of db1 2 rt2024 1]
  have "generate_serial_number rt2024 (db1\<lparr>certificates := [cert1]\<rparr>) 1 2 =
         Inl (ValueError (py ''Course with ID '' @ str_int 2 @ py '' not found''))"
    by blast
  moreover from b missing_course [of db1 1 rt2024 1]
  have "\<exists>r. generate_serial_number rt2024 db1 1 1 = Inr r"
    by blast
  ultimately show ?thesis
    by (simp add: c d py_def)
qed

text \<open>
  C9. Verification is total on untrusted input: for every string, whatever its length and
  characters, \<open>verify_certificate_authenticity\<close> returns a result with \<open>is_valid\<close>,
  \<open>reason\<close> and \<open>certificate\<close> and raises nothing; a serial that the validator refuses gives
  \<open>is_valid = False\<close>, the reason "Invalid serial number format" and no certificate, whatever
  the store holds.
\<close>

theorem verify_total:
  "(\<exists>r. verify_certificate_authenticity rt db s = Inr r) \<and>
   (\<not> validate_serial_number s \<longrightarrow>
      (\<forall>db'. verify_certificate_authenticity rt db' s =
         Inr \<lparr>is_valid = False, reason = py ''Invalid serial number format'',
              certificate = None\<rparr>))"
proof (cases "validate_serial_number s")
  case False
  then show ?thesis by (simp add: verify_not_valid)
next
  case v: True
  show ?thesis
  proof (cases "find (\<lambda>c. serial_number c = s) (certificates db)")
    case None
    with v show ?thesis by (simp add: verify_not_found)
  next
    case (Some cert)
    show ?thesis
    proof (cases "status cert = Some (py ''active'')")
      case False
      with v Some show ?thesis by (simp add: verify_not_active)
    next
      case True
      from verify_hash_step [OF v, of "student_id cert" "course_id cert"]
      obtain year code seq h bytes where "unpack4 (split 45 s) = Inr (year, code, seq, h)"
        "encode (join4 (str_int (student_id cert)) (str_int (course_id cert)) year seq)
           = Inr bytes"
        by blast
      with v Some True show ?thesis
        by (simp add: verify_certificate_authenticity_def Let_def)
    qed
  qed
qed

theorem verify_total_witness:
  "\<not> validate_serial_number (py ''24-WD-0001-A1B2C3'') \<and>
   verify_certificate_authenticity rt2024 db1 (py ''24-WD-0001-A1B2C3'') =
     Inr \<lparr>is_valid = False, reason = py ''Invalid serial number format'', certificate = None\<rparr>"
proof -
  have h: "\<not> validate_serial_number (py ''24-WD-0001-A1B2C3'')"
    by (simp add: validate_eval)
  show ?thesis
    using h verify_total [of rt2024 db1 "py ''24-WD-0001-A1B2C3''"] by blast
qed

text \<open>
  C10. Verification reads only four columns of the stored certificate. For every serial and
  any two stores whose lookups of that serial agree (both find nothing, or they find
  certificates with the same \<open>serial_number\<close>, \<open>status\<close>, \<open>student_id\<close> and \<open>course_id\<close>),
  verification returns the same \<open>is_valid\<close> and the same \<open>reason\<close>, whatever the stored
  \<open>sequential_part\<close>, \<open>hash_part\<close>, \<open>issue_year\<close>, \<open>issue_date\<close> and the course table are: the
  year and the sequence that are hashed are segments of the serial string.
\<close>

theorem verify_ignores_derived:
  assumes "rel_option
     (\<lambda>c c'. serial_number c = serial_number c' \<and> status c = status c' \<and>
              student_id c = student_id c' \<and> course_id c = course_id c')
     (find (\<lambda>c. serial_number c = s) (certificates db))
     (find (\<lambda>c. serial_number c = s) (certificates db'))"
  shows "\<exists>r r'. verify_certificate_authenticity rt db s = Inr r \<and>
                 verify_certificate_authenticity rt db' s = Inr r' \<and>
                 is_valid r = is_valid r' \<and> reason r = reason r'"
proof (cases "validate_serial_number s")
  case False
  then show ?thesis by (simp add: verify_not_valid)
next
  case v: True
  show ?thesis
  proof (cases "find (\<lambda>c. serial_number c = s) (certificates db)")
    case None
    with assms have "find (\<lambda>c. serial_number c = s) (certificates db') = None"
      by (cases "find (\<lambda>c. serial_number c = s) (certificates db')") auto
    with v None show ?thesis by (simp add: verify_not_found)
  next
    case (Some c)
    with assms obtain c' where c': "find (\<lambda>c. serial_number c = s) (certificates db') = Some c'"
      and eq: "status c = status c'" "student_id c = student_id c'" "course_id c = course_id c'"
      by (cases "find (\<lambda>c. serial_number c = s) (certificates db')") auto
    show ?thesis
    proof (cases "status c = Some (py ''active'')")
      case False
      with v Some c' eq show ?thesis by (simp add: verify_not_active)
    next
      case True
      from v obtain year code seq h where sp: "split 45 s = [year, code, seq, h]"
        by (rule validate_parts)
      from verify_hash_step [OF v, of "student_id c" "course_id c"] sp
      obtain bytes where
        "encode (join4 (str_int (student_id c)) (str_int (course_id c)) year seq) = Inr bytes"
        by auto
      with v Some c' eq True sp show ?thesis
        by (simp add: verify_active [where year = year and code = code and seq = seq and h = h
              and bytes = bytes])
    qed
  qed
qed

theorem verify_ignores_derived_witness:
  "verify_certificate_authenticity rt2024 db1 (py ''2024-WD-0001-473895'') =
     Inr \<lparr>is_valid = True, reason = py ''Certificate is authentic and valid'',
          certificate = Some cert1\<rparr> \<and>
   (\<exists>r'. verify_certificate_authenticity rt2024 db_derived (py ''2024-WD-0001-473895'') = Inr r' \<and>
      is_valid r' \<and> reason r' = py ''Certificate is authentic and valid'')"
proof -
  have "rel_option
     (\<lambda>c c'. serial_number c = serial_number c' \<and> status c = status c' \<and>
              student_id c = student_id c' \<and> course_id c = course_id c')
     (find (\<lambda>c. serial_number c = py ''2024-WD-0001-473895'') (certificates db1))
     (find (\<lambda>c. serial_number c = py ''2024-WD-0001-473895'') (certificates db_derived))"
    by (simp add: db1_def db_derived_def cert1_def)
  from verify_ignores_derived [OF this, of rt2024] verify_first show ?thesis
    by auto
qed

end
